theory Spec2Isabelle
  imports Complex_Main
begin

section \<open>JavaScript numbers\<close>

text \<open>
  The library computes on JavaScript numbers, the binary64 values of IEEE 754: the finite
  doubles, a negative zero, the two infinities and \<open>NaN\<close>. A finite value is held as the
  real number it denotes, \<open>Num 0\<close> being the positive zero. Every arithmetic operation
  rounds its exact result to the nearest double, a tie going to the even significand,
  overflows to an infinity and underflows through the subnormal numbers to a signed zero.
\<close>

datatype jsnum = Num real | NegZero | PosInf | NegInf | NaN

subsection \<open>Rounding to binary64\<close>

text \<open>The integer nearest to \<open>r\<close>, the even one of the two when \<open>r\<close> lies halfway.\<close>

definition round_even :: "real \<Rightarrow> int" where
  "round_even r =
     (let f = \<lfloor>r\<rfloor>; d = r - of_int f
      in if d < 1 / 2 then f else if 1 / 2 < d then f + 1 else if even f then f else f + 1)"

text \<open>
  The exponent of the binade of \<open>x\<close>, which is that of the subnormal numbers below
  \<open>2 powi - 1022\<close>, and the distance between two neighbouring doubles of that binade.
\<close>

definition binade :: "real \<Rightarrow> int" where
  "binade x = (if x = 0 then - 1022 else max \<lfloor>log 2 \<bar>x\<bar>\<rfloor> (- 1022))"

definition ulp :: "real \<Rightarrow> real" where
  "ulp x = 2 powi (binade x - 52)"

text \<open>Rounding to 53 significant bits with an exponent that is unbounded above.\<close>

definition rnd64 :: "real \<Rightarrow> real" where
  "rnd64 x = of_int (round_even (x / ulp x)) * ulp x"

fun signed_inf :: "bool \<Rightarrow> jsnum" where
  "signed_inf True = NegInf"
| "signed_inf False = PosInf"

fun signed_zero :: "bool \<Rightarrow> jsnum" where
  "signed_zero True = NegZero"
| "signed_zero False = Num 0"

text \<open>
  The double that an operation delivers when its exact result is \<open>x\<close> and the sign of the
  result is negative exactly when \<open>neg\<close> holds: an infinity when the rounded value leaves
  the range of the finite doubles, a zero of that sign when it vanishes.
\<close>

definition fl :: "bool \<Rightarrow> real \<Rightarrow> jsnum" where
  "fl neg x =
     (let y = rnd64 x
      in if 2 ^ 1024 \<le> \<bar>y\<bar> then signed_inf neg
         else if y = 0 then signed_zero neg
         else Num y)"

text \<open>The value of a decimal literal of the source text.\<close>

definition double :: "real \<Rightarrow> jsnum" where
  "double x = fl (x < 0) x"

subsection \<open>Arithmetic\<close>

fun is_finite :: "jsnum \<Rightarrow> bool" where
  "is_finite (Num x) = True"
| "is_finite NegZero = True"
| "is_finite PosInf = False"
| "is_finite NegInf = False"
| "is_finite NaN = False"

fun is_inf :: "jsnum \<Rightarrow> bool" where
  "is_inf PosInf = True"
| "is_inf NegInf = True"
| "is_inf a = False"

text \<open>The sign bit, and the real number that a finite value denotes.\<close>

fun is_neg :: "jsnum \<Rightarrow> bool" where
  "is_neg (Num x) = (x < 0)"
| "is_neg NegZero = True"
| "is_neg NegInf = True"
| "is_neg PosInf = False"
| "is_neg NaN = False"

fun val :: "jsnum \<Rightarrow> real" where
  "val (Num x) = x"
| "val a = 0"

definition is_zero :: "jsnum \<Rightarrow> bool" where
  "is_zero a \<longleftrightarrow> a = Num 0 \<or> a = NegZero"

fun jneg :: "jsnum \<Rightarrow> jsnum" where
  "jneg (Num x) = (if x = 0 then NegZero else Num (- x))"
| "jneg NegZero = Num 0"
| "jneg PosInf = NegInf"
| "jneg NegInf = PosInf"
| "jneg NaN = NaN"

text \<open>
  A sum of two infinities of opposite sign is \<open>NaN\<close>. An exact sum of zero is the positive
  zero unless both operands are negative zeros.
\<close>

definition jadd :: "jsnum \<Rightarrow> jsnum \<Rightarrow> jsnum" where
  "jadd a b =
     (if a = NaN \<or> b = NaN then NaN
      else if is_inf a then (if is_inf b \<and> a \<noteq> b then NaN else a)
      else if is_inf b then b
      else if val a + val b = 0 then signed_zero (is_neg a \<and> is_neg b)
      else fl (val a + val b < 0) (val a + val b))"

definition jsub :: "jsnum \<Rightarrow> jsnum \<Rightarrow> jsnum" where
  "jsub a b = jadd a (jneg b)"

text \<open>
  The sign of a product and of a quotient is the exclusive or of the signs of the operands.
  Zero times an infinity, zero by zero and an infinity by an infinity are \<open>NaN\<close>.
\<close>

definition jmul :: "jsnum \<Rightarrow> jsnum \<Rightarrow> jsnum" where
  "jmul a b =
     (if a = NaN \<or> b = NaN then NaN
      else if is_inf a \<or> is_inf b then
        (if is_zero a \<or> is_zero b then NaN else signed_inf (is_neg a \<noteq> is_neg b))
      else fl (is_neg a \<noteq> is_neg b) (val a * val b))"

definition jdiv :: "jsnum \<Rightarrow> jsnum \<Rightarrow> jsnum" where
  "jdiv a b =
     (if a = NaN \<or> b = NaN then NaN
      else if is_inf a then (if is_inf b then NaN else signed_inf (is_neg a \<noteq> is_neg b))
      else if is_inf b then signed_zero (is_neg a \<noteq> is_neg b)
      else if is_zero b then
        (if is_zero a then NaN else signed_inf (is_neg a \<noteq> is_neg b))
      else fl (is_neg a \<noteq> is_neg b) (val a / val b))"

text \<open>Every comparison with \<open>NaN\<close> is false, and the two zeros are equal.\<close>

definition jlt :: "jsnum \<Rightarrow> jsnum \<Rightarrow> bool" where
  "jlt a b =
     (if a = NaN \<or> b = NaN then False
      else if a = PosInf \<or> b = NegInf then False
      else if a = NegInf \<or> b = PosInf then True
      else val a < val b)"

definition jle :: "jsnum \<Rightarrow> jsnum \<Rightarrow> bool" where
  "jle a b =
     (if a = NaN \<or> b = NaN then False
      else if a = NegInf \<or> b = PosInf then True
      else if a = PosInf \<or> b = NegInf then False
      else val a \<le> val b)"

definition jgt :: "jsnum \<Rightarrow> jsnum \<Rightarrow> bool" where
  "jgt a b = jlt b a"

definition jge :: "jsnum \<Rightarrow> jsnum \<Rightarrow> bool" where
  "jge a b = jle b a"

text \<open>
  \<open>Math.round\<close> gives the nearest integer, a tie going up, and \<open>Math.ceil\<close> the ceiling;
  both give the negative zero for a negative argument that rounds to zero. \<open>Math.log\<close> is
  the natural logarithm, \<open>-Infinity\<close> at zero and \<open>NaN\<close> below. \<open>Math.pow\<close> is only called
  with an exponent that is a loop counter, a positive integer. The language leaves the
  accuracy of \<open>Math.log\<close> and \<open>Math.pow\<close> to the implementation; they are taken here to be
  correctly rounded.
\<close>

fun Math_round :: "jsnum \<Rightarrow> jsnum" where
  "Math_round (Num x) = (if \<lfloor>x + 1 / 2\<rfloor> = 0 \<and> x < 0 then NegZero else Num (of_int \<lfloor>x + 1 / 2\<rfloor>))"
| "Math_round NegZero = NegZero"
| "Math_round PosInf = PosInf"
| "Math_round NegInf = NegInf"
| "Math_round NaN = NaN"

fun Math_ceil :: "jsnum \<Rightarrow> jsnum" where
  "Math_ceil (Num x) = (if \<lceil>x\<rceil> = 0 \<and> x < 0 then NegZero else Num (of_int \<lceil>x\<rceil>))"
| "Math_ceil NegZero = NegZero"
| "Math_ceil PosInf = PosInf"
| "Math_ceil NegInf = NegInf"
| "Math_ceil NaN = NaN"

fun Math_log :: "jsnum \<Rightarrow> jsnum" where
  "Math_log (Num x) = (if x < 0 then NaN else if x = 0 then NegInf else double (ln x))"
| "Math_log NegZero = NegInf"
| "Math_log PosInf = PosInf"
| "Math_log NegInf = NaN"
| "Math_log NaN = NaN"

fun Math_pow :: "jsnum \<Rightarrow> nat \<Rightarrow> jsnum" where
  "Math_pow b 0 = Num 1"
| "Math_pow (Num x) (Suc n) = fl (x < 0 \<and> even n) (x ^ Suc n)"
| "Math_pow NegZero (Suc n) = signed_zero (even n)"
| "Math_pow PosInf (Suc n) = PosInf"
| "Math_pow NegInf (Suc n) = signed_inf (even n)"
| "Math_pow NaN (Suc n) = NaN"

text \<open>
  An optional property is \<open>None\<close> when it is \<open>undefined\<close>. A default in a destructuring
  pattern (\<open>{ coats = 1 }\<close>) replaces \<open>undefined\<close> only; the operator \<open>||\<close> replaces every
  falsy value, which for a number is \<open>undefined\<close>, zero and \<open>NaN\<close>.
\<close>

fun dflt :: "jsnum option \<Rightarrow> jsnum \<Rightarrow> jsnum" where
  "dflt None d = d"
| "dflt (Some v) d = v"

fun or_else :: "jsnum option \<Rightarrow> jsnum \<Rightarrow> jsnum" where
  "or_else None d = d"
| "or_else (Some (Num x)) d = (if x = 0 then d else Num x)"
| "or_else (Some NegZero) d = d"
| "or_else (Some NaN) d = d"
| "or_else (Some PosInf) d = PosInf"
| "or_else (Some NegInf) d = NegInf"

text \<open>
  A template literal is kept as its list of segments: literal text, and numbers that the
  language converts to text. The conversion of a number to its decimal text is not
  modelled; the segment holds the number.
\<close>

datatype segment = Lit string | NumText jsnum

type_synonym template = "segment list"

text \<open>\<open>Array.prototype.join\<close> on templates.\<close>

fun join :: "template \<Rightarrow> template list \<Rightarrow> template" where
  "join sep [] = []"
| "join sep [t] = t"
| "join sep (t # u # ts) = t @ sep @ join sep (u # ts)"

text \<open>The library throws \<open>Error\<close> objects; the message is kept.\<close>

datatype error = InvalidInput string

section \<open>Constants\<close>

definition COVERAGE_CONSTANT :: jsnum where
  "COVERAGE_CONSTANT = Num 1604"

definition DEW_POINT_MARGIN :: jsnum where
  "DEW_POINT_MARGIN = Num 5"

definition MAGNUS_A :: jsnum where
  "MAGNUS_A = double 17.27"

definition MAGNUS_B :: jsnum where
  "MAGNUS_B = double 237.7"

section \<open>Coverage calculators\<close>

record CoverageInput =
  surfaceArea :: jsnum
  coats :: "jsnum option"
  volumeSolids :: jsnum
  targetDFT :: jsnum
  transferEfficiency :: "jsnum option"
  pricePerGallon :: "jsnum option"

record CoverageResult =
  theoreticalCoverage :: jsnum
  practicalCoverage :: jsnum
  gallonsPerCoat :: jsnum
  totalGallons :: jsnum
  totalWithWaste :: jsnum
  wasteFactorGallons :: jsnum
  fiveGallonBuckets :: jsnum
  oneGallonCans :: jsnum
  estimatedCost :: jsnum
  coveragePerGallon :: jsnum

text \<open>
  The constants that the body of \<open>calculatePaintCoverage\<close> binds after validation, before
  any rounding, in the order of the source.
\<close>

record CoverageLocals =
  raw_theoreticalCoverage :: jsnum
  raw_practicalCoverage :: jsnum
  raw_gallonsPerCoat :: jsnum
  raw_totalGallons :: jsnum
  raw_wasteFactorGallons :: jsnum
  raw_totalWithWaste :: jsnum
  raw_fiveGallonBuckets :: jsnum
  raw_oneGallonCans :: jsnum
  raw_estimatedCost :: jsnum

definition coverage_locals ::
  "jsnum \<Rightarrow> jsnum \<Rightarrow> jsnum \<Rightarrow> jsnum \<Rightarrow> jsnum \<Rightarrow> jsnum \<Rightarrow> CoverageLocals" where
  "coverage_locals area cts solids dft efficiency price =
     (let theoretical = jdiv (jdiv (jmul COVERAGE_CONSTANT solids) (Num 100)) dft;
          practical = jmul theoretical (jdiv efficiency (Num 100));
          perCoat = jdiv area practical;
          total = jmul perCoat cts;
          waste = jmul total (double 0.1);
          withWaste = jadd total waste;
          buckets = Math_ceil (jdiv withWaste (Num 5));
          cans = Math_ceil withWaste;
          cost = (if jgt price (Num 0) then jmul withWaste price else Num 0)
      in \<lparr>raw_theoreticalCoverage = theoretical,
          raw_practicalCoverage = practical,
          raw_gallonsPerCoat = perCoat,
          raw_totalGallons = total,
          raw_wasteFactorGallons = waste,
          raw_totalWithWaste = withWaste,
          raw_fiveGallonBuckets = buckets,
          raw_oneGallonCans = cans,
          raw_estimatedCost = cost\<rparr>)"

text \<open>The object of the \<open>return\<close> statement, built from those constants.\<close>

definition coverage_return :: "CoverageLocals \<Rightarrow> CoverageResult" where
  "coverage_return l =
     \<lparr>theoreticalCoverage = jdiv (Math_round (jmul (raw_theoreticalCoverage l) (Num 10))) (Num 10),
      practicalCoverage = jdiv (Math_round (jmul (raw_practicalCoverage l) (Num 10))) (Num 10),
      gallonsPerCoat = jdiv (Math_ceil (jmul (raw_gallonsPerCoat l) (Num 10))) (Num 10),
      totalGallons = jdiv (Math_ceil (jmul (raw_totalGallons l) (Num 10))) (Num 10),
      totalWithWaste = jdiv (Math_ceil (jmul (raw_totalWithWaste l) (Num 10))) (Num 10),
      wasteFactorGallons = jdiv (Math_ceil (jmul (raw_wasteFactorGallons l) (Num 10))) (Num 10),
      fiveGallonBuckets = raw_fiveGallonBuckets l,
      oneGallonCans = raw_oneGallonCans l,
      estimatedCost = jdiv (Math_round (jmul (raw_estimatedCost l) (Num 100))) (Num 100),
      coveragePerGallon = Math_round (raw_practicalCoverage l)\<rparr>"

definition calculatePaintCoverage :: "CoverageInput \<Rightarrow> error + CoverageResult" where
  "calculatePaintCoverage input =
     (let area = surfaceArea input;
          cts = dflt (coats input) (Num 1);
          solids = volumeSolids input;
          dft = targetDFT input;
          efficiency = dflt (transferEfficiency input) (Num 65);
          price = dflt (pricePerGallon input) (Num 0)
      in if jle area (Num 0) then
           Inl (InvalidInput ''Surface area must be greater than 0'')
         else if jle solids (Num 0) \<or> jgt solids (Num 100) then
           Inl (InvalidInput ''Volume solids must be between 0 and 100'')
         else if jle dft (Num 0) then
           Inl (InvalidInput ''Target DFT must be greater than 0'')
         else Inr (coverage_return (coverage_locals area cts solids dft efficiency price)))"

subsection \<open>Multi-coat systems\<close>

datatype layerType = primer | intermediate | topcoat

record CoatingLayer =
  volumeSolids :: jsnum
  dft :: jsnum
  coats :: jsnum
  pricePerGallon :: "jsnum option"
  productName :: "string option"

record MultiCoatInput =
  surfaceArea :: jsnum
  system :: "layerType \<rightharpoonup> CoatingLayer"
  transferEfficiency :: "jsnum option"

record LayerResult = CoverageResult +
  totalDFT :: jsnum
  cost :: jsnum

record MultiCoatSummary =
  totalDFT :: jsnum
  totalCost :: jsnum
  costPerSquareFoot :: jsnum
  totalGallons :: jsnum
  systemDescription :: template

record MultiCoatResult =
  layers :: "layerType \<rightharpoonup> LayerResult"
  summary :: MultiCoatSummary

text \<open>
  The variables that the callback of \<open>forEach\<close> updates: the object \<open>layers\<close> and the
  three running totals.
\<close>

record MultiCoatState =
  acc_layers :: "layerType \<rightharpoonup> LayerResult"
  acc_totalCost :: jsnum
  acc_totalDFT :: jsnum
  acc_totalGallons :: jsnum

text \<open>The argument object that the callback passes to \<open>calculatePaintCoverage\<close>.\<close>

definition layer_input :: "jsnum \<Rightarrow> jsnum \<Rightarrow> CoatingLayer \<Rightarrow> CoverageInput" where
  "layer_input area efficiency layer =
     \<lparr>CoverageInput.surfaceArea = area,
      CoverageInput.coats = Some (CoatingLayer.coats layer),
      CoverageInput.volumeSolids = CoatingLayer.volumeSolids layer,
      targetDFT = dft layer,
      CoverageInput.transferEfficiency = Some efficiency,
      CoverageInput.pricePerGallon = Some (or_else (CoatingLayer.pricePerGallon layer) (Num 0))\<rparr>"

text \<open>One call of the callback; an exception of \<open>calculatePaintCoverage\<close> leaves it.\<close>

definition process_layer ::
  "jsnum \<Rightarrow> (layerType \<rightharpoonup> CoatingLayer) \<Rightarrow> jsnum \<Rightarrow> layerType \<Rightarrow> MultiCoatState
     \<Rightarrow> error + MultiCoatState" where
  "process_layer area sys efficiency layerType st =
     (case sys layerType of
        None \<Rightarrow> Inr st
      | Some layer \<Rightarrow>
          if jgt (CoatingLayer.coats layer) (Num 0) then
            (case calculatePaintCoverage (layer_input area efficiency layer) of
               Inl e \<Rightarrow> Inl e
             | Inr coverage \<Rightarrow>
                 (let layerDFT = jmul (dft layer) (CoatingLayer.coats layer);
                      layerCost = jmul (CoverageResult.totalGallons coverage)
                                       (or_else (CoatingLayer.pricePerGallon layer) (Num 0))
                  in Inr \<lparr>acc_layers = (acc_layers st)(layerType \<mapsto>
                               CoverageResult.extend coverage
                                 (LayerResult.fields layerDFT
                                    (jdiv (Math_round (jmul layerCost (Num 100))) (Num 100)))),
                           acc_totalCost = jadd (acc_totalCost st) layerCost,
                           acc_totalDFT = jadd (acc_totalDFT st) layerDFT,
                           acc_totalGallons =
                             jadd (acc_totalGallons st) (CoverageResult.totalGallons coverage)\<rparr>))
          else Inr st)"

text \<open>\<open>Array.prototype.forEach\<close> with a callback that may throw.\<close>

fun forEach :: "('a \<Rightarrow> 's \<Rightarrow> error + 's) \<Rightarrow> 'a list \<Rightarrow> 's \<Rightarrow> error + 's" where
  "forEach f [] st = Inr st"
| "forEach f (x # xs) st = (case f x st of Inl e \<Rightarrow> Inl e | Inr st' \<Rightarrow> forEach f xs st')"

definition describe_layer :: "string \<Rightarrow> LayerResult \<Rightarrow> template" where
  "describe_layer label l = [Lit label, NumText (LayerResult.totalDFT l), Lit '' mils DFT'']"

definition generateSystemDescription :: "(layerType \<rightharpoonup> LayerResult) \<Rightarrow> template" where
  "generateSystemDescription ls =
     (let d0 = [];
          d1 = (case ls primer of
                  Some l \<Rightarrow> d0 @ [describe_layer ''Primer: '' l] | None \<Rightarrow> d0);
          d2 = (case ls intermediate of
                  Some l \<Rightarrow> d1 @ [describe_layer ''Intermediate: '' l] | None \<Rightarrow> d1);
          d3 = (case ls topcoat of
                  Some l \<Rightarrow> d2 @ [describe_layer ''Topcoat: '' l] | None \<Rightarrow> d2)
      in join [Lit '' | ''] d3)"

definition calculateMultiCoatSystem :: "MultiCoatInput \<Rightarrow> error + MultiCoatResult" where
  "calculateMultiCoatSystem input =
     (let area = MultiCoatInput.surfaceArea input;
          sys = system input;
          efficiency = dflt (MultiCoatInput.transferEfficiency input) (Num 65);
          init = \<lparr>acc_layers = Map.empty, acc_totalCost = Num 0, acc_totalDFT = Num 0,
                  acc_totalGallons = Num 0\<rparr>
      in case forEach (process_layer area sys efficiency) [primer, intermediate, topcoat] init of
           Inl e \<Rightarrow> Inl e
         | Inr st \<Rightarrow>
             Inr \<lparr>layers = acc_layers st,
                  summary =
                    \<lparr>MultiCoatSummary.totalDFT =
                       jdiv (Math_round (jmul (acc_totalDFT st) (Num 10))) (Num 10),
                     totalCost = jdiv (Math_round (jmul (acc_totalCost st) (Num 100))) (Num 100),
                     costPerSquareFoot =
                       jdiv (Math_round (jmul (jdiv (acc_totalCost st) area) (Num 100))) (Num 100),
                     MultiCoatSummary.totalGallons =
                       jdiv (Math_round (jmul (acc_totalGallons st) (Num 10))) (Num 10),
                     systemDescription = generateSystemDescription (acc_layers st)\<rparr>\<rparr>)"

section \<open>Environmental calculators: dew point\<close>

record DewPointInput =
  temperature :: jsnum
  humidity :: jsnum

record DewPointResult =
  dewPoint :: jsnum
  minimumSurfaceTemp :: jsnum
  currentMargin :: jsnum
  isSafe :: bool
  recommendation :: template

text \<open>The constants bound by the body of \<open>calculateDewPoint\<close>, before rounding.\<close>

record DewPointLocals =
  raw_alpha :: jsnum
  raw_dewPoint :: jsnum
  raw_surfaceTemp :: jsnum
  raw_currentMargin :: jsnum
  raw_isSafe :: bool

definition dewPoint_locals :: "jsnum \<Rightarrow> jsnum \<Rightarrow> DewPointLocals" where
  "dewPoint_locals temp hum =
     (let alpha = jadd (jdiv (jmul MAGNUS_A temp) (jadd MAGNUS_B temp))
                       (Math_log (jdiv hum (Num 100)));
          dp = jdiv (jmul MAGNUS_B alpha) (jsub MAGNUS_A alpha);
          surface = jsub temp (Num 5);
          margin = jsub surface dp;
          safe = jge margin DEW_POINT_MARGIN
      in \<lparr>raw_alpha = alpha, raw_dewPoint = dp, raw_surfaceTemp = surface,
          raw_currentMargin = margin, raw_isSafe = safe\<rparr>)"

text \<open>
  The texts of the recommendation start with an emoji and the second one ends in a degree
  sign; they are held as their UTF-8 bytes.
\<close>

definition check_mark :: string where
  "check_mark = [CHR 0xE2, CHR 0x9C, CHR 0x85]"

definition warning_sign :: string where
  "warning_sign = [CHR 0xE2, CHR 0x9A, CHR 0xA0, CHR 0xEF, CHR 0xB8, CHR 0x8F]"

definition degree_sign :: string where
  "degree_sign = [CHR 0xC2, CHR 0xB0]"

definition dewPoint_return :: "DewPointLocals \<Rightarrow> DewPointResult" where
  "dewPoint_return l =
     \<lparr>dewPoint = jdiv (Math_round (jmul (raw_dewPoint l) (Num 10))) (Num 10),
      minimumSurfaceTemp =
        jdiv (Math_round (jmul (jadd (raw_dewPoint l) DEW_POINT_MARGIN) (Num 10))) (Num 10),
      currentMargin = jdiv (Math_round (jmul (raw_currentMargin l) (Num 10))) (Num 10),
      isSafe = raw_isSafe l,
      recommendation =
        (if raw_isSafe l then [Lit (check_mark @ '' Conditions are acceptable for painting'')]
         else [Lit (warning_sign @
                    '' Warning: Risk of condensation. Wait until surface temp is above ''),
               NumText (Math_round (jadd (raw_dewPoint l) (Num 5))),
               Lit (degree_sign @ ''F'')])\<rparr>"

definition calculateDewPoint :: "DewPointInput \<Rightarrow> error + DewPointResult" where
  "calculateDewPoint input =
     Inr (dewPoint_return (dewPoint_locals (temperature input) (humidity input)))"

section \<open>Cost calculators: return on investment\<close>

record CurrentSystem =
  maintenanceCost :: jsnum
  lifespan :: jsnum
  heatTransfer :: "jsnum option"

record ProposedSystem =
  initialCost :: jsnum
  maintenanceCost :: jsnum
  lifespan :: jsnum
  reflectivity :: "jsnum option"

record ROIInput =
  currentSystem :: CurrentSystem
  proposedSystem :: ProposedSystem
  facilitySize :: jsnum
  energyCosts :: "jsnum option"
  discountRate :: "jsnum option"

record ROICurrent =
  annualCost :: jsnum
  tenYearCost :: jsnum

record ROIProposed =
  initialCost :: jsnum
  annualSavings :: jsnum
  tenYearSavings :: jsnum

record ROIMetrics =
  paybackPeriod :: jsnum
  tenYearROI :: jsnum
  netPresentValue :: jsnum

record ROIResult =
  currentSystem :: ROICurrent
  proposedSystem :: ROIProposed
  roi :: ROIMetrics

text \<open>
  The loop of \<open>calculateNPV\<close>, from the counter \<open>year\<close> up to \<open>years\<close>; the only caller
  passes the literal 10 for \<open>years\<close>.
\<close>

function npv_loop :: "jsnum \<Rightarrow> jsnum \<Rightarrow> nat \<Rightarrow> nat \<Rightarrow> jsnum \<Rightarrow> jsnum" where
  "npv_loop annualCashFlow rate years year npv =
     (if year \<le> years then
        npv_loop annualCashFlow rate years (Suc year)
          (jadd npv (jdiv annualCashFlow (Math_pow (jadd (Num 1) rate) year)))
      else npv)"
  by pat_completeness auto
termination
  by (relation "measure (\<lambda>(annualCashFlow, rate, years, year, npv). Suc years - year)") auto

declare npv_loop.simps [simp del]

definition calculateNPV :: "jsnum \<Rightarrow> jsnum \<Rightarrow> nat \<Rightarrow> jsnum \<Rightarrow> jsnum" where
  "calculateNPV annualCashFlow initialInvestment years rate =
     npv_loop annualCashFlow rate years 1 (jneg initialInvestment)"

text \<open>The constants bound by the body of \<open>calculateROI\<close>, before rounding.\<close>

record ROILocals =
  raw_currentTotalAnnual :: jsnum
  raw_annualSavings :: jsnum
  raw_paybackPeriod :: jsnum
  raw_tenYearSavings :: jsnum
  raw_tenYearROI :: jsnum
  raw_netPresentValue :: jsnum

definition roi_locals :: "ROIInput \<Rightarrow> ROILocals" where
  "roi_locals input =
     (let cur = ROIInput.currentSystem input;
          prop = ROIInput.proposedSystem input;
          size = facilitySize input;
          energy = dflt (energyCosts input) (double 0.12);
          rate = dflt (discountRate input) (double 0.05);
          currentAnnualMaintenance =
            jdiv (CurrentSystem.maintenanceCost cur) (CurrentSystem.lifespan cur);
          currentEnergyLoss =
            jmul (jmul (jmul (or_else (heatTransfer cur) (Num 0)) size) energy) (double 0.01);
          currentTotalAnnual = jadd currentAnnualMaintenance currentEnergyLoss;
          proposedAnnualMaintenance =
            jdiv (ProposedSystem.maintenanceCost prop) (ProposedSystem.lifespan prop);
          proposedEnergySavings =
            jmul (jmul (jmul (or_else (reflectivity prop) (Num 0)) size) energy) (double 0.0015);
          proposedTotalAnnual = jsub proposedAnnualMaintenance proposedEnergySavings;
          savings = jsub currentTotalAnnual proposedTotalAnnual;
          payback = jdiv (ProposedSystem.initialCost prop) savings;
          tenYear = jmul savings (Num 10);
          tenYearReturn =
            jmul (jdiv (jsub tenYear (ProposedSystem.initialCost prop))
                       (ProposedSystem.initialCost prop)) (Num 100);
          npv = calculateNPV savings (ProposedSystem.initialCost prop) 10 rate
      in \<lparr>raw_currentTotalAnnual = currentTotalAnnual, raw_annualSavings = savings,
          raw_paybackPeriod = payback, raw_tenYearSavings = tenYear,
          raw_tenYearROI = tenYearReturn, raw_netPresentValue = npv\<rparr>)"

definition calculateROI :: "ROIInput \<Rightarrow> error + ROIResult" where
  "calculateROI input =
     (let l = roi_locals input
      in Inr \<lparr>ROIResult.currentSystem =
                 \<lparr>annualCost =
                    jdiv (Math_round (jmul (raw_currentTotalAnnual l) (Num 100))) (Num 100),
                  tenYearCost =
                    jdiv (Math_round (jmul (jmul (raw_currentTotalAnnual l) (Num 10)) (Num 100)))
                         (Num 100)\<rparr>,
               ROIResult.proposedSystem =
                 \<lparr>ROIProposed.initialCost =
                    ProposedSystem.initialCost (ROIInput.proposedSystem input),
                  annualSavings =
                    jdiv (Math_round (jmul (raw_annualSavings l) (Num 100))) (Num 100),
                  tenYearSavings =
                    jdiv (Math_round (jmul (raw_tenYearSavings l) (Num 100))) (Num 100)\<rparr>,
               roi =
                 \<lparr>paybackPeriod =
                    jdiv (Math_round (jmul (raw_paybackPeriod l) (Num 10))) (Num 10),
                  tenYearROI = jdiv (Math_round (jmul (raw_tenYearROI l) (Num 10))) (Num 10),
                  netPresentValue =
                    jdiv (Math_round (jmul (raw_netPresentValue l) (Num 100))) (Num 100)\<rparr>\<rparr>)"

section \<open>Technical calculators\<close>

record WFTInput =
  targetDFT :: jsnum
  volumeSolids :: jsnum
  reductionPercent :: "jsnum option"

record WFTResult =
  wetFilmThickness :: jsnum
  adjustedSolids :: jsnum
  wetFilmGauge :: string
  applicationTips :: "template list"

definition wft_adjustedSolids :: "WFTInput \<Rightarrow> jsnum" where
  "wft_adjustedSolids input =
     jmul (WFTInput.volumeSolids input)
          (jsub (Num 1) (jdiv (dflt (reductionPercent input) (Num 0)) (Num 100)))"

definition calculateWFT :: "WFTInput \<Rightarrow> error + WFTResult" where
  "calculateWFT input =
     (let reduction = dflt (reductionPercent input) (Num 0);
          adjusted = wft_adjustedSolids input;
          wet = jmul (jdiv (WFTInput.targetDFT input) adjusted) (Num 100);
          gauge = (if jle wet (Num 25) then ''0-25 mil gauge''
                   else if jle wet (Num 50) then ''0-50 mil gauge''
                   else if jle wet (Num 100) then ''0-100 mil gauge''
                   else ''Use multiple passes or special gauge'');
          t0 = [];
          t1 = (if jgt wet (Num 20)
                then t0 @ [[Lit ''Apply in multiple passes to avoid sagging'']] else t0);
          t2 = (if jgt reduction (Num 10)
                then t1 @ [[Lit ''Thinning by '', NumText reduction,
                            Lit ''% may affect coating properties'']]
                else t1);
          t3 = (if jlt adjusted (Num 50)
                then t2 @ [[Lit ''Multiple coats may be required for proper build'']] else t2);
          t4 = t3 @ [[Lit (''Check WFT immediately after application using '' @ gauge)]]
      in Inr \<lparr>wetFilmThickness = jdiv (Math_round (jmul wet (Num 10))) (Num 10),
               adjustedSolids = jdiv (Math_round (jmul adjusted (Num 10))) (Num 10),
               wetFilmGauge = gauge,
               applicationTips = t4\<rparr>)"

definition calculateSpreadingRate :: "jsnum \<Rightarrow> jsnum \<Rightarrow> jsnum" where
  "calculateSpreadingRate wft solids =
     (let d = jdiv (jmul wft solids) (Num 100);
          coverage = jdiv (jmul COVERAGE_CONSTANT solids) d
      in jdiv (Math_round (jmul coverage (Num 10))) (Num 10))"

section \<open>Rounding to decimals\<close>

text \<open>
  The source rounds a value to \<open>k\<close> decimals by scaling it, rounding it to an integer and
  scaling it back: \<open>Math.round(x * 10) / 10\<close>, \<open>Math.round(x * 100) / 100\<close> and
  \<open>Math.ceil(x * 10) / 10\<close>. The two functions below name this idiom; both scalings are
  operations on doubles and round.
\<close>

definition js_round :: "nat \<Rightarrow> jsnum \<Rightarrow> jsnum" where
  "js_round k v = jdiv (Math_round (jmul v (Num (10 ^ k)))) (Num (10 ^ k))"

definition js_ceil :: "nat \<Rightarrow> jsnum \<Rightarrow> jsnum" where
  "js_ceil k v = jdiv (Math_ceil (jmul v (Num (10 ^ k)))) (Num (10 ^ k))"

section \<open>The multi-coat calculation as the specification words it\<close>

text \<open>
  These definitions are not taken from the source. They describe the result of
  \<open>calculateMultiCoatSystem\<close> in the words of the specification: which layers are
  included, what is computed for one layer, and how the included layers are collected
  into totals and a description. The function of the source is compared with
  \<open>spec_multiCoat\<close> below.
\<close>

text \<open>The included layers, in the fixed order: those present with a coat count above 0.\<close>

definition included_layers ::
  "(layerType \<rightharpoonup> CoatingLayer) \<Rightarrow> layerType list \<Rightarrow> (layerType \<times> CoatingLayer) list" where
  "included_layers sys lts =
     List.map_filter
       (\<lambda>lt. case sys lt of
                None \<Rightarrow> None
              | Some l \<Rightarrow> if jgt (CoatingLayer.coats l) (Num 0) then Some (lt, l) else None)
       lts"

definition layer_price :: "CoatingLayer \<Rightarrow> jsnum" where
  "layer_price l = or_else (CoatingLayer.pricePerGallon l) (Num 0)"

text \<open>
  One layer: the coverage of the layer's parameters at the system's transfer efficiency,
  extended by the layer's total DFT, \<open>dft * coats\<close>, and its cost rounded to 2 decimals.
  The cost of a layer is its \<open>totalGallons\<close> times its price per gallon.
\<close>

definition spec_layer_cost :: "CoatingLayer \<Rightarrow> 'a CoverageResult_scheme \<Rightarrow> jsnum" where
  "spec_layer_cost l c = jmul (CoverageResult.totalGallons c) (layer_price l)"

definition spec_layer :: "jsnum \<Rightarrow> jsnum \<Rightarrow> CoatingLayer \<Rightarrow> error + LayerResult" where
  "spec_layer area efficiency l =
     (case calculatePaintCoverage
             \<lparr>CoverageInput.surfaceArea = area,
              CoverageInput.coats = Some (CoatingLayer.coats l),
              CoverageInput.volumeSolids = CoatingLayer.volumeSolids l,
              targetDFT = dft l,
              CoverageInput.transferEfficiency = Some efficiency,
              CoverageInput.pricePerGallon = Some (layer_price l)\<rparr> of
        Inl e \<Rightarrow> Inl e
      | Inr c \<Rightarrow>
          Inr (CoverageResult.extend c
                 (LayerResult.fields (jmul (dft l) (CoatingLayer.coats l))
                    (js_round 2 (spec_layer_cost l c)))))"

text \<open>All layers of a list, or the error of the first one that fails.\<close>

fun spec_layers ::
  "jsnum \<Rightarrow> jsnum \<Rightarrow> (layerType \<times> CoatingLayer) list
     \<Rightarrow> error + (layerType \<times> CoatingLayer \<times> LayerResult) list" where
  "spec_layers area efficiency [] = Inr []"
| "spec_layers area efficiency ((lt, l) # rest) =
     (case spec_layer area efficiency l of
        Inl e \<Rightarrow> Inl e
      | Inr r \<Rightarrow>
          (case spec_layers area efficiency rest of
             Inl e \<Rightarrow> Inl e
           | Inr rs \<Rightarrow> Inr ((lt, l, r) # rs)))"

text \<open>The sum of a list of numbers, from the left.\<close>

definition jsum :: "jsnum list \<Rightarrow> jsnum" where
  "jsum xs = foldl jadd (Num 0) xs"

fun layer_name :: "layerType \<Rightarrow> string" where
  "layer_name primer = ''Primer''"
| "layer_name intermediate = ''Intermediate''"
| "layer_name topcoat = ''Topcoat''"

definition spec_description :: "layerType \<Rightarrow> LayerResult \<Rightarrow> template" where
  "spec_description lt r =
     [Lit (layer_name lt @ '': ''), NumText (LayerResult.totalDFT r), Lit '' mils DFT'']"

definition spec_multiCoat :: "MultiCoatInput \<Rightarrow> error + MultiCoatResult" where
  "spec_multiCoat input =
     (let area = MultiCoatInput.surfaceArea input;
          efficiency = dflt (MultiCoatInput.transferEfficiency input) (Num 65);
          inc = included_layers (system input) [primer, intermediate, topcoat]
      in case spec_layers area efficiency inc of
           Inl e \<Rightarrow> Inl e
         | Inr rs \<Rightarrow>
             (let dfts = map (\<lambda>(lt, l, r). LayerResult.totalDFT r) rs;
                  costs = map (\<lambda>(lt, l, r). spec_layer_cost l r) rs;
                  gallons = map (\<lambda>(lt, l, r). CoverageResult.totalGallons r) rs
              in Inr \<lparr>layers = map_of (map (\<lambda>(lt, l, r). (lt, r)) rs),
                       summary =
                         \<lparr>MultiCoatSummary.totalDFT = js_round 1 (jsum dfts),
                          totalCost = js_round 2 (jsum costs),
                          costPerSquareFoot =
                            js_round 2 (jdiv (jsum costs) area),
                          MultiCoatSummary.totalGallons =
                            js_round 1 (jsum gallons),
                          systemDescription =
                            join [Lit '' | '']
                              (map (\<lambda>(lt, l, r). spec_description lt r) rs)\<rparr>\<rparr>))"

section \<open>Example inputs\<close>

text \<open>The input of the README and of the first unit test.\<close>

definition readme_input :: CoverageInput where
  "readme_input =
     \<lparr>CoverageInput.surfaceArea = Num 1000, CoverageInput.coats = Some (Num 2),
      CoverageInput.volumeSolids = Num 65, CoverageInput.targetDFT = Num 5,
      CoverageInput.transferEfficiency = Some (Num 65),
      CoverageInput.pricePerGallon = Some (Num 45)\<rparr>"

text \<open>
  The conditions of the README, 75 degrees and 65 percent humidity, and the object that
  \<open>calculateDewPoint\<close> returns for them.
\<close>

definition dewPoint_example_input :: DewPointInput where
  "dewPoint_example_input = \<lparr>temperature = Num 75, humidity = Num 65\<rparr>"


text \<open>
  A comparison of two systems with equal yearly costs, so that the annual savings are
  zero, and a coating thinned by 100 percent.
\<close>

definition zero_savings_input :: ROIInput where
  "zero_savings_input =
     \<lparr>ROIInput.currentSystem =
        \<lparr>CurrentSystem.maintenanceCost = Num 1000, CurrentSystem.lifespan = Num 10,
         heatTransfer = None\<rparr>,
      ROIInput.proposedSystem =
        \<lparr>ProposedSystem.initialCost = Num 5000, ProposedSystem.maintenanceCost = Num 1000,
         ProposedSystem.lifespan = Num 10, reflectivity = None\<rparr>,
      facilitySize = Num 10000, energyCosts = None, discountRate = None\<rparr>"

definition full_thinning_input :: WFTInput where
  "full_thinning_input =
     \<lparr>WFTInput.targetDFT = Num 5, WFTInput.volumeSolids = Num 65,
      reductionPercent = Some (Num 100)\<rparr>"

text \<open>The system of the first unit test of the multi-coat calculator: a primer and a topcoat.\<close>

definition test_primer :: CoatingLayer where
  "test_primer =
     \<lparr>CoatingLayer.volumeSolids = Num 75, dft = Num 3, CoatingLayer.coats = Num 1,
      CoatingLayer.pricePerGallon = Some (Num 35), productName = None\<rparr>"

definition test_topcoat :: CoatingLayer where
  "test_topcoat =
     \<lparr>CoatingLayer.volumeSolids = Num 65, dft = Num 3, CoatingLayer.coats = Num 2,
      CoatingLayer.pricePerGallon = Some (Num 45), productName = None\<rparr>"

definition test_system :: MultiCoatInput where
  "test_system =
     \<lparr>MultiCoatInput.surfaceArea = Num 1000,
      system = [primer \<mapsto> test_primer, topcoat \<mapsto> test_topcoat],
      MultiCoatInput.transferEfficiency = Some (Num 65)\<rparr>"

text \<open>The first test system with the volume solids of the topcoat out of range.\<close>

definition bad_topcoat_system :: MultiCoatInput where
  "bad_topcoat_system =
     \<lparr>MultiCoatInput.surfaceArea = Num 1000,
      system = [primer \<mapsto> test_primer,
                topcoat \<mapsto> test_topcoat\<lparr>CoatingLayer.volumeSolids := Num 150\<rparr>],
      MultiCoatInput.transferEfficiency = Some (Num 65)\<rparr>"

text \<open>
  A system of a single topcoat coat at 25 a gallon on 1000 square feet, at the default
  transfer efficiency.
\<close>

definition one_topcoat_layer :: CoatingLayer where
  "one_topcoat_layer =
     \<lparr>CoatingLayer.volumeSolids = Num 50, dft = Num 3, CoatingLayer.coats = Num 1,
      CoatingLayer.pricePerGallon = Some (Num 25), productName = None\<rparr>"

definition one_topcoat :: MultiCoatInput where
  "one_topcoat =
     \<lparr>MultiCoatInput.surfaceArea = Num 1000, system = [topcoat \<mapsto> one_topcoat_layer],
      MultiCoatInput.transferEfficiency = None\<rparr>"

section \<open>Properties of the rounding to binary64\<close>

lemma round_even_cases: "round_even r = \<lfloor>r\<rfloor> \<or> round_even r = \<lfloor>r\<rfloor> + 1"
  by (simp add: round_even_def Let_def)

lemma round_even_of_int [simp]: "round_even (of_int n) = n"
  by (simp add: round_even_def Let_def)

lemma round_even_error: "\<bar>of_int (round_even r) - r\<bar> \<le> 1 / 2"
proof -
  define f where "f = \<lfloor>r\<rfloor>"
  have "of_int f \<le> r" "r < of_int f + 1" unfolding f_def by linarith+
  then show ?thesis unfolding round_even_def Let_def f_def [symmetric] by (auto simp: abs_if)
qed

lemma round_even_mono: "r \<le> s \<Longrightarrow> round_even r \<le> round_even s"
proof -
  assume rs: "r \<le> s"
  then have fg: "\<lfloor>r\<rfloor> \<le> \<lfloor>s\<rfloor>" by (rule floor_mono)
  show ?thesis
  proof (cases "\<lfloor>r\<rfloor> = \<lfloor>s\<rfloor>")
    case True
    with rs show ?thesis by (auto simp: round_even_def Let_def)
  next
    case False
    with fg have "\<lfloor>r\<rfloor> + 1 \<le> \<lfloor>s\<rfloor>" by simp
    moreover have "round_even r \<le> \<lfloor>r\<rfloor> + 1" using round_even_cases [of r] by auto
    moreover have "\<lfloor>s\<rfloor> \<le> round_even s" using round_even_cases [of s] by auto
    ultimately show ?thesis by linarith
  qed
qed

lemma round_even_minus: "round_even (- r) = - round_even r"
proof (cases "r = of_int \<lfloor>r\<rfloor>")
  case True
  then obtain n :: int where "r = of_int n" by blast
  then have "- r = of_int (- n)" by simp
  then show ?thesis using \<open>r = of_int n\<close> by (simp only: round_even_of_int)
next
  case False
  then have fl: "\<lfloor>- r\<rfloor> = - \<lfloor>r\<rfloor> - 1"
    by (intro floor_unique) (use False in linarith)+
  define f where "f = \<lfloor>r\<rfloor>"
  have b: "of_int f < r" "r < of_int f + 1" using False unfolding f_def by linarith+
  show ?thesis
    unfolding round_even_def Let_def fl unfolding f_def [symmetric] using b by auto
qed


lemma round_even_nonneg: "0 \<le> r \<Longrightarrow> 0 \<le> round_even r"
  using round_even_mono [of 0 r] round_even_of_int [of 0] by simp

lemma round_even_eqI:
  "of_int m - 1 / 2 < r \<Longrightarrow> r < of_int m + 1 / 2 \<Longrightarrow> round_even r = m"
proof -
  assume a: "of_int m - 1 / 2 < r" "r < of_int m + 1 / 2"
  show ?thesis
  proof (cases "of_int m \<le> r")
    case True
    then have "\<lfloor>r\<rfloor> = m" using a by (intro floor_unique) linarith+
    then show ?thesis using a True by (simp add: round_even_def Let_def)
  next
    case False
    then have "of_int (m - 1) \<le> r" "r < of_int (m - 1) + 1" using a by simp_all
    then have f: "\<lfloor>r\<rfloor> = m - 1" by (rule floor_unique)
    show ?thesis using a False by (simp add: round_even_def Let_def f)
  qed
qed

lemma round_even_tie_even:
  "r = of_int m + 1 / 2 \<Longrightarrow> even m \<Longrightarrow> round_even r = m"
proof -
  assume a: "r = of_int m + 1 / 2" "even m"
  have "\<lfloor>r\<rfloor> = m" using a by (intro floor_unique) linarith+
  then show ?thesis using a by (simp add: round_even_def Let_def)
qed

lemma round_even_tie_odd:
  "r = of_int m - 1 / 2 \<Longrightarrow> even m \<Longrightarrow> round_even r = m"
proof -
  assume a: "r = of_int m - 1 / 2" "even m"
  have f: "\<lfloor>r\<rfloor> = m - 1" using a by (intro floor_unique) simp_all
  then show ?thesis using a by (simp add: round_even_def Let_def f)
qed

subsection \<open>Binades\<close>

lemma powi2_less_iff: "(2::real) powi m < 2 powi n \<longleftrightarrow> m < n"
proof
  assume a: "(2::real) powi m < 2 powi n"
  show "m < n"
  proof (rule ccontr)
    assume "\<not> m < n"
    then have "(2::real) powi n \<le> 2 powi m" by (intro power_int_increasing) simp_all
    with a show False by simp
  qed
next
  assume "m < n" then show "(2::real) powi m < 2 powi n"
    by (intro power_int_strict_increasing) simp_all
qed

lemma powi2_le_iff: "(2::real) powi m \<le> 2 powi n \<longleftrightarrow> m \<le> n"
  using powi2_less_iff [of n m] by (simp add: not_less [symmetric])

lemma floor_log2_iff:
  assumes "0 < x"
  shows "\<lfloor>log 2 x\<rfloor> = k \<longleftrightarrow> 2 powi k \<le> x \<and> x < 2 powi (k + 1)"
proof -
  have 1: "2 powr real_of_int (k + 1) = 2 powi (k + 1)" by (rule powr_real_of_int') simp_all
  have 2: "2 powr real_of_int k = 2 powi k" by (rule powr_real_of_int') simp_all
  have "\<lfloor>log 2 x\<rfloor> = k \<longleftrightarrow> 2 powr real_of_int k \<le> x \<and> x < 2 powr real_of_int (k + 1)"
    using assms by (intro floor_log_eq_powr_iff) simp_all
  then show ?thesis by (simp only: 1 2)
qed

lemma binade_minus [simp]: "binade (- x) = binade x"
  by (simp add: binade_def)

lemma binade_ge: "- 1022 \<le> binade x"
  by (simp add: binade_def)

lemma binade_eqI:
  assumes "- 1022 \<le> k" "2 powi k \<le> \<bar>x\<bar>" "\<bar>x\<bar> < 2 powi (k + 1)"
  shows "binade x = k"
proof -
  have pos: "0 < \<bar>x\<bar>" using assms(2) by (smt (verit) zero_less_power_int)
  have "\<lfloor>log 2 \<bar>x\<bar>\<rfloor> = k"
    using assms pos by (simp add: floor_log2_iff)
  then show ?thesis using pos assms(1) by (simp add: binade_def)
qed

lemma binade_subnormal:
  assumes "\<bar>x\<bar> < 2 powi (- 1022)"
  shows "binade x = - 1022"
proof (cases "x = 0")
  case True then show ?thesis by (simp add: binade_def)
next
  case False
  then have pos: "0 < \<bar>x\<bar>" by simp
  define k where "k = \<lfloor>log 2 \<bar>x\<bar>\<rfloor>"
  have "2 powi k \<le> \<bar>x\<bar>" using floor_log2_iff [of "\<bar>x\<bar>" k] pos by (simp add: k_def)
  with assms have "2 powi k < (2::real) powi (- 1022)" by linarith
  then have "\<lfloor>log 2 \<bar>x\<bar>\<rfloor> < - 1022"
    unfolding k_def [symmetric] by (simp only: powi2_less_iff)
  then show ?thesis using False by (simp add: binade_def)
qed

lemma binade_upper: "\<bar>x\<bar> < 2 powi (binade x + 1)"
proof (cases "x = 0")
  case True then show ?thesis by simp
next
  case False
  then have pos: "0 < \<bar>x\<bar>" by simp
  define k where "k = \<lfloor>log 2 \<bar>x\<bar>\<rfloor>"
  have "\<bar>x\<bar> < 2 powi (k + 1)"
    using floor_log2_iff [of "\<bar>x\<bar>" k] pos by (simp add: k_def)
  also have "\<dots> \<le> 2 powi (binade x + 1)"
    using False by (intro power_int_increasing) (simp_all add: binade_def k_def)
  finally show ?thesis .
qed

lemma binade_lower:
  assumes "2 powi (- 1022) \<le> \<bar>x\<bar>"
  shows "2 powi (binade x) \<le> \<bar>x\<bar>"
proof -
  have pos: "0 < \<bar>x\<bar>" using assms by (smt (verit) zero_less_power_int)
  define k where "k = \<lfloor>log 2 \<bar>x\<bar>\<rfloor>"
  have k: "2 powi k \<le> \<bar>x\<bar>"
    using floor_log2_iff [of "\<bar>x\<bar>" k] pos by (simp add: k_def)
  have "\<bar>x\<bar> < 2 powi (k + 1)"
    using floor_log2_iff [of "\<bar>x\<bar>" k] pos by (simp add: k_def)
  with assms have "(2::real) powi (- 1022) < 2 powi (k + 1)" by linarith
  then have "- 1022 < k + 1" by (simp only: powi2_less_iff)
  then have "- 1022 \<le> k" by simp
  then have "binade x = k" using pos by (simp add: binade_def k_def)
  then show ?thesis using k by simp
qed

lemma binade_mono:
  assumes "\<bar>x\<bar> \<le> \<bar>y\<bar>"
  shows "binade x \<le> binade y"
proof (cases "\<bar>x\<bar> < 2 powi (- 1022)")
  case True
  then show ?thesis using binade_subnormal [of x] binade_ge [of y] by simp
next
  case False
  then have "2 powi (binade x) \<le> \<bar>x\<bar>" by (intro binade_lower) simp
  also have "\<dots> \<le> \<bar>y\<bar>" by fact
  also have "\<dots> < 2 powi (binade y + 1)" by (rule binade_upper)
  finally have "binade x < binade y + 1"
    by (simp add: powi2_less_iff)
  then show ?thesis by simp
qed


subsection \<open>Rounding\<close>

lemma ulp_pos: "0 < ulp x"
  by (simp add: ulp_def)

lemma ulp_minus [simp]: "ulp (- x) = ulp x"
  by (simp add: ulp_def)

lemma rnd64_0 [simp]: "rnd64 0 = 0"
  using round_even_of_int [of 0] by (simp add: rnd64_def)

lemma rnd64_minus: "rnd64 (- x) = - rnd64 x"
  by (simp add: rnd64_def round_even_minus)

lemma powi2_split: "(2::real) powi k = 2 ^ 52 * 2 powi (k - 52)"
proof -
  have e: "k = 52 + (k - 52)" by simp
  have "(2::real) powi (52 + (k - 52)) = 2 powi 52 * 2 powi (k - 52)"
    by (rule power_int_add) simp
  then show ?thesis unfolding e [symmetric] by simp
qed

lemma powi2_split': "(2::real) powi (k + 1) = 2 ^ 53 * 2 powi (k - 52)"
proof -
  have e: "k + 1 = 53 + (k - 52)" by simp
  have "(2::real) powi (53 + (k - 52)) = 2 powi 53 * 2 powi (k - 52)"
    by (rule power_int_add) simp
  then show ?thesis unfolding e [symmetric] by simp
qed

lemma powi2_half: "(2::real) powi (k - 53) = 2 powi (k - 52) / 2"
proof -
  have e: "k - 52 = (k - 53) + 1" by simp
  have "(2::real) powi ((k - 53) + 1) = 2 powi (k - 53) * 2" by (rule power_int_add_1) simp
  then show ?thesis unfolding e [symmetric] by simp
qed

lemma rnd64_eval:
  assumes "q = 2 powi (k - 52)" "- 1022 \<le> k" "2 ^ 52 * q \<le> \<bar>x\<bar>" "\<bar>x\<bar> < 2 ^ 53 * q"
    and "round_even (x / q) = m"
  shows "rnd64 x = of_int m * q"
proof -
  have "binade x = k"
    using assms(2-4) unfolding assms(1) powi2_split [symmetric] powi2_split' [symmetric]
    by (rule binade_eqI)
  then show ?thesis using assms(1,5) by (simp add: rnd64_def ulp_def)
qed

lemma rnd64_eval_subnormal:
  assumes "q = 2 powi (- 1074)" "\<bar>x\<bar> < 2 ^ 52 * q" and "round_even (x / q) = m"
  shows "rnd64 x = of_int m * q"
proof -
  have "(2::real) powi (- 1022) = 2 ^ 52 * 2 powi (- 1022 - 52)" by (rule powi2_split)
  then have "\<bar>x\<bar> < 2 powi (- 1022)" using assms(1,2) by simp
  then have "binade x = - 1022" by (rule binade_subnormal)
  then have "rnd64 x = of_int (round_even (x / 2 powi (- 1022 - 52))) * 2 powi (- 1022 - 52)"
    by (simp only: rnd64_def ulp_def)
  moreover have "(- 1022 - 52 :: int) = - 1074" by simp
  ultimately show ?thesis by (simp only: assms(1) [symmetric] assms(3))
qed

lemma rnd64_error: "\<bar>rnd64 x - x\<bar> \<le> ulp x / 2"
proof -
  have "\<bar>of_int (round_even (x / ulp x)) - x / ulp x\<bar> \<le> 1 / 2" by (rule round_even_error)
  then have "\<bar>of_int (round_even (x / ulp x)) - x / ulp x\<bar> * ulp x \<le> 1 / 2 * ulp x"
    using ulp_pos [of x] by (intro mult_right_mono) simp_all
  moreover have "\<bar>of_int (round_even (x / ulp x)) - x / ulp x\<bar> * ulp x = \<bar>rnd64 x - x\<bar>"
  proof -
    have "\<bar>of_int (round_even (x / ulp x)) - x / ulp x\<bar> * ulp x
           = \<bar>(of_int (round_even (x / ulp x)) - x / ulp x) * ulp x\<bar>"
      using ulp_pos [of x] by (simp add: abs_mult)
    also have "(of_int (round_even (x / ulp x)) - x / ulp x) * ulp x = rnd64 x - x"
      using ulp_pos [of x] by (simp add: rnd64_def algebra_simps)
    finally show ?thesis .
  qed
  ultimately show ?thesis by simp
qed

lemma ulp_le:
  assumes "2 powi (- 1022) \<le> \<bar>x\<bar>"
  shows "ulp x \<le> \<bar>x\<bar> / 2 ^ 52"
proof -
  have "2 ^ 52 * ulp x = 2 powi (binade x)" unfolding ulp_def by (rule powi2_split [symmetric])
  also have "\<dots> \<le> \<bar>x\<bar>" using assms by (rule binade_lower)
  finally show ?thesis by (simp add: field_simps)
qed

lemma ulp_subnormal:
  assumes "\<bar>x\<bar> < 2 powi (- 1022)"
  shows "ulp x = 2 powi (- 1074)"
  using binade_subnormal [OF assms] by (simp add: ulp_def)

lemma rnd64_rel_error:
  assumes "2 powi (- 1022) \<le> \<bar>x\<bar>"
  shows "\<bar>rnd64 x - x\<bar> \<le> \<bar>x\<bar> / 2 ^ 53"
  using rnd64_error [of x] ulp_le [OF assms] by simp

lemma rnd64_abs_error: "\<bar>rnd64 x - x\<bar> \<le> \<bar>x\<bar> / 2 ^ 53 + 2 powi (- 1075)"
proof (cases "2 powi (- 1022) \<le> \<bar>x\<bar>")
  case True
  have "0 \<le> (2::real) powi (- 1075)" by simp
  then show ?thesis using rnd64_rel_error [OF True] by linarith
next
  case False
  then have "ulp x = 2 powi (- 1074)" by (intro ulp_subnormal) simp
  moreover have "(2::real) powi (- 1075) = 2 powi (- 1074) / 2"
    using powi2_half [of "- 1022"] by simp
  ultimately have "\<bar>rnd64 x - x\<bar> \<le> 2 powi (- 1075)" using rnd64_error [of x] by simp
  moreover have "0 \<le> \<bar>x\<bar> / 2 ^ 53" by simp
  ultimately show ?thesis by linarith
qed

lemma rnd64_nonneg: "0 \<le> x \<Longrightarrow> 0 \<le> rnd64 x"
  using ulp_pos [of x] by (simp add: rnd64_def round_even_nonneg)

lemma rnd64_nonpos: "x \<le> 0 \<Longrightarrow> rnd64 x \<le> 0"
  using rnd64_nonneg [of "- x"] by (simp add: rnd64_minus)

lemma rnd64_upper:
  assumes "0 \<le> x"
  shows "rnd64 x \<le> 2 powi (binade x + 1)"
proof -
  have "x / ulp x \<le> 2 ^ 53"
    using binade_upper [of x] assms ulp_pos [of x]
    unfolding powi2_split' ulp_def [symmetric] by (simp add: field_simps)
  then have "round_even (x / ulp x) \<le> round_even (of_int (2 ^ 53))"
    by (intro round_even_mono) simp
  then have "round_even (x / ulp x) \<le> 2 ^ 53" by (simp only: round_even_of_int)
  then have "(of_int (round_even (x / ulp x)) :: real) \<le> of_int (2 ^ 53)"
    by (simp only: of_int_le_iff)
  then have "of_int (round_even (x / ulp x)) * ulp x \<le> 2 ^ 53 * ulp x"
    using ulp_pos [of x] by (intro mult_right_mono) simp_all
  then show ?thesis unfolding powi2_split' ulp_def [symmetric] rnd64_def .
qed

lemma rnd64_lower:
  assumes "2 powi (- 1022) \<le> x"
  shows "2 powi (binade x) \<le> rnd64 x"
proof -
  have x: "0 \<le> x" "\<bar>x\<bar> = x" using assms by (smt (verit) zero_less_power_int)+
  have "2 powi (binade x) \<le> x" using binade_lower [of x] assms x by simp
  then have "2 ^ 52 \<le> x / ulp x"
    using ulp_pos [of x] unfolding powi2_split [of "binade x"] ulp_def [symmetric]
    by (simp add: field_simps)
  then have "round_even (of_int (2 ^ 52)) \<le> round_even (x / ulp x)"
    by (intro round_even_mono) simp
  then have "2 ^ 52 \<le> round_even (x / ulp x)" by (simp only: round_even_of_int)
  then have "(of_int (2 ^ 52) :: real) \<le> of_int (round_even (x / ulp x))"
    by (simp only: of_int_le_iff)
  then have "2 ^ 52 * ulp x \<le> of_int (round_even (x / ulp x)) * ulp x"
    using ulp_pos [of x] by (intro mult_right_mono) simp_all
  then show ?thesis unfolding powi2_split [of "binade x"] ulp_def [symmetric] rnd64_def .
qed

lemma rnd64_mono_nonneg:
  assumes "0 \<le> x" "x \<le> y"
  shows "rnd64 x \<le> rnd64 y"
proof (cases "binade x = binade y")
  case True
  then have u: "ulp x = ulp y" by (simp add: ulp_def)
  have "x / ulp y \<le> y / ulp y" using assms ulp_pos [of y] by (simp add: divide_right_mono)
  then have "round_even (x / ulp y) \<le> round_even (y / ulp y)" by (rule round_even_mono)
  then have "(of_int (round_even (x / ulp y)) :: real) \<le> of_int (round_even (y / ulp y))"
    by simp
  then show ?thesis unfolding rnd64_def u using ulp_pos [of y] by (intro mult_right_mono) simp_all
next
  case False
  have "binade x \<le> binade y" using assms by (intro binade_mono) simp
  with False have lt: "binade x + 1 \<le> binade y" by simp
  then have "- 1022 < binade y" using binade_ge [of x] by simp
  then have "\<not> \<bar>y\<bar> < 2 powi (- 1022)" using binade_subnormal [of y] by auto
  then have y: "2 powi (- 1022) \<le> y" using assms by simp
  have "rnd64 x \<le> 2 powi (binade x + 1)" using assms by (intro rnd64_upper)
  also have "\<dots> \<le> 2 powi (binade y)" using lt by (simp only: powi2_le_iff)
  also have "\<dots> \<le> rnd64 y" using y by (rule rnd64_lower)
  finally show ?thesis .
qed

lemma rnd64_mono:
  assumes "x \<le> y"
  shows "rnd64 x \<le> rnd64 y"
proof -
  consider "0 \<le> x" | "y \<le> 0" | "x < 0" "0 < y" by linarith
  then show ?thesis
  proof cases
    case 1 then show ?thesis using assms by (rule rnd64_mono_nonneg)
  next
    case 2
    then have "rnd64 (- y) \<le> rnd64 (- x)" using assms by (intro rnd64_mono_nonneg) simp_all
    then show ?thesis by (simp add: rnd64_minus)
  next
    case 3
    then have "rnd64 x \<le> 0" "0 \<le> rnd64 y" by (simp_all add: rnd64_nonpos rnd64_nonneg)
    then show ?thesis by simp
  qed
qed

lemma rnd64_repr:
  assumes "x = of_int m * 2 powi e" "\<bar>m\<bar> \<le> 2 ^ 53" "- 1074 \<le> e"
  shows "rnd64 x = x"
proof -
  define b where "b = binade x"
  have "(of_int \<bar>m\<bar> :: real) \<le> of_int (2 ^ 53)" using assms(2) by (simp only: of_int_le_iff)
  then have "of_int \<bar>m\<bar> * 2 powi e \<le> of_int (2 ^ 53) * (2::real) powi e"
    by (rule mult_right_mono) simp
  also have "of_int (2 ^ 53) * (2::real) powi e = 2 powi 53 * 2 powi e" by simp
  also have "\<dots> = 2 powi (53 + e)" by (rule power_int_add [symmetric]) simp
  finally have up: "of_int \<bar>m\<bar> * 2 powi e \<le> (2::real) powi (53 + e)" .
  have "\<exists>n::int. x / ulp x = of_int n"
  proof (cases "b - 52 \<le> e")
    case True
    then obtain d :: nat where d: "e = (b - 52) + int d"
      by (metis add_diff_cancel_left' diff_ge_0_iff_ge nonneg_int_cases add.commute diff_add_cancel)
    have "(2::real) powi e = 2 powi (b - 52) * 2 powi (int d)"
      unfolding d by (rule power_int_add) simp
    then have "2 powi e = ulp x * 2 ^ d" by (simp add: ulp_def b_def)
    then have "x = of_int m * (ulp x * 2 ^ d)" by (simp only: assms(1))
    then have "x / ulp x = of_int m * (ulp x * 2 ^ d) / ulp x" by simp
    also have "\<dots> = of_int m * 2 ^ d" using ulp_pos [of x] by simp
    finally have "x / ulp x = of_int (m * 2 ^ d)" by simp
    then show ?thesis ..
  next
    case False
    then have lt: "e < b - 52" by simp
    then have "- 1022 < b" using assms(3) by simp
    then have "\<not> \<bar>x\<bar> < 2 powi (- 1022)" using binade_subnormal [of x] by (auto simp: b_def)
    then have "2 powi b \<le> \<bar>x\<bar>" unfolding b_def by (intro binade_lower) simp
    also have "\<bar>x\<bar> = of_int \<bar>m\<bar> * 2 powi e" by (simp add: assms(1) abs_mult)
    also have "\<dots> \<le> 2 powi (53 + e)" by (rule up)
    finally have lo: "2 powi b \<le> \<bar>x\<bar>" and "(2::real) powi b \<le> 2 powi (53 + e)"
      using \<open>2 powi b \<le> \<bar>x\<bar>\<close> by simp_all
    then have "b \<le> 53 + e" by (simp only: powi2_le_iff)
    with lt have be: "b = 53 + e" by simp
    have "\<bar>x\<bar> \<le> 2 powi (53 + e)" using up by (simp add: assms(1) abs_mult)
    with lo have ax: "\<bar>x\<bar> = 2 powi b" using be by simp
    have "2 powi b = 2 ^ 52 * ulp x" unfolding ulp_def b_def by (rule powi2_split)
    then have "\<bar>x\<bar> / ulp x = 2 ^ 52" using ax ulp_pos [of x] by simp
    then have "x / ulp x = of_int (2 ^ 52) \<or> x / ulp x = of_int (- (2 ^ 52))"
      using ulp_pos [of x] by (cases "0 \<le> x") (simp_all add: abs_if)
    then show ?thesis by blast
  qed
  then obtain n :: int where n: "x / ulp x = of_int n" ..
  then have "rnd64 x = of_int n * ulp x" by (simp only: rnd64_def round_even_of_int)
  also have "\<dots> = x / ulp x * ulp x" by (simp only: n)
  also have "\<dots> = x" using ulp_pos [of x] by simp
  finally show ?thesis .
qed

lemma rnd64_of_int:
  assumes "\<bar>n\<bar> \<le> 2 ^ 53"
  shows "rnd64 (of_int n) = of_int n"
  using rnd64_repr [of "of_int n" n 0] assms by simp

lemma rnd64_idem: "rnd64 (rnd64 x) = rnd64 x"
proof -
  have ge: "- 1074 \<le> binade x - 52" using binade_ge [of x] by simp
  have "\<bar>x\<bar> / ulp x \<le> 2 ^ 53"
    using binade_upper [of x] ulp_pos [of x]
    unfolding powi2_split' ulp_def [symmetric] by (simp add: field_simps)
  then have a: "- (2 ^ 53) \<le> x / ulp x" "x / ulp x \<le> 2 ^ 53"
    using ulp_pos [of x] by (simp_all add: abs_if field_simps split: if_splits)
  have "round_even (of_int (- (2 ^ 53))) \<le> round_even (x / ulp x)"
    using a(1) by (intro round_even_mono) simp
  moreover have "round_even (x / ulp x) \<le> round_even (of_int (2 ^ 53))"
    using a(2) by (intro round_even_mono) simp
  ultimately have "- (2 ^ 53) \<le> round_even (x / ulp x) \<and> round_even (x / ulp x) \<le> 2 ^ 53"
    by (simp only: round_even_of_int)
  then have "\<bar>round_even (x / ulp x)\<bar> \<le> 2 ^ 53" by linarith
  then show ?thesis
    using ge by (intro rnd64_repr [where m = "round_even (x / ulp x)" and e = "binade x - 52"])
      (simp_all add: rnd64_def ulp_def)
qed


subsection \<open>Results of operations\<close>

lemma rnd64_abs_bounds:
  assumes "2 powi (- 1022) \<le> \<bar>x\<bar>"
  shows "2 powi (binade x) \<le> \<bar>rnd64 x\<bar> \<and> \<bar>rnd64 x\<bar> \<le> 2 powi (binade x + 1)"
proof (cases "0 \<le> x")
  case True
  then have "0 \<le> rnd64 x" by (rule rnd64_nonneg)
  then show ?thesis using rnd64_lower [of x] rnd64_upper [of x] assms True by simp
next
  case False
  then have "0 \<le> rnd64 (- x)" by (intro rnd64_nonneg) simp
  then show ?thesis
    using rnd64_lower [of "- x"] rnd64_upper [of "- x"] assms False by (simp add: rnd64_minus)
qed

lemma fl_finite:
  assumes "2 powi (- 1022) \<le> \<bar>x\<bar>" "\<bar>x\<bar> < 2 powi 1023"
  shows "fl s x = Num (rnd64 x)"
proof -
  have "2 powi (binade x) \<le> \<bar>x\<bar>" using assms(1) by (rule binade_lower)
  with assms(2) have "(2::real) powi (binade x) < 2 powi 1023" by linarith
  then have "binade x < 1023" by (simp only: powi2_less_iff)
  then have "binade x + 1 \<le> 1023" by simp
  then have "(2::real) powi (binade x + 1) \<le> 2 powi 1023" by (simp only: powi2_le_iff)
  moreover have "(2::real) powi 1023 < 2 powi 1024" by (simp only: powi2_less_iff)
  ultimately have up: "\<bar>rnd64 x\<bar> < 2 powi 1024" using rnd64_abs_bounds [OF assms(1)] by linarith
  have "(0::real) < 2 powi (binade x)" by simp
  then have "0 < \<bar>rnd64 x\<bar>" using rnd64_abs_bounds [OF assms(1)] by linarith
  then have nz: "rnd64 x \<noteq> 0" by auto
  have "(2::real) powi 1024 = 2 ^ 1024" by (simp only: power_int_numeral)
  with up have "\<not> 2 ^ 1024 \<le> \<bar>rnd64 x\<bar>" by simp
  with nz show ?thesis by (simp add: fl_def Let_def)
qed

lemma fl_overflow:
  assumes "2 powi 1024 \<le> \<bar>x\<bar>"
  shows "fl s x = signed_inf s"
proof -
  have "(2::real) powi (- 1022) \<le> 2 powi 1024" by (simp only: powi2_le_iff)
  with assms have n: "2 powi (- 1022) \<le> \<bar>x\<bar>" by linarith
  have "\<bar>x\<bar> < 2 powi (binade x + 1)" by (rule binade_upper)
  with assms have "(2::real) powi 1024 < 2 powi (binade x + 1)" by linarith
  then have "1024 \<le> binade x" by (simp only: powi2_less_iff)
  then have "(2::real) powi 1024 \<le> 2 powi (binade x)" by (simp only: powi2_le_iff)
  then have "2 powi 1024 \<le> \<bar>rnd64 x\<bar>" using rnd64_abs_bounds [OF n] by linarith
  moreover have "(2::real) powi 1024 = 2 ^ 1024" by (simp only: power_int_numeral)
  ultimately show ?thesis by (simp add: fl_def Let_def)
qed

lemma fl_underflow:
  assumes "\<bar>x\<bar> < 2 powi (- 1075)"
  shows "fl s x = signed_zero s"
proof -
  have h: "(2::real) powi (- 1075) = 2 powi (- 1074) / 2" using powi2_half [of "- 1022"] by simp
  have "(2::real) powi (- 1074) / 2 \<le> 2 ^ 52 * 2 powi (- 1074)" by simp
  with assms h have 1: "\<bar>x\<bar> < 2 ^ 52 * 2 powi (- 1074)" by linarith
  have "\<bar>x\<bar> / 2 powi (- 1074) < 1 / 2" using assms h by (simp add: field_simps)
  then have "\<bar>x / 2 powi (- 1074)\<bar> < 1 / 2" by (simp add: abs_divide)
  then have "round_even (x / 2 powi (- 1074)) = 0" by (intro round_even_eqI) (simp_all add: abs_less_iff)
  with 1 have "rnd64 x = of_int 0 * 2 powi (- 1074)" by (intro rnd64_eval_subnormal) simp_all
  then show ?thesis by (simp add: fl_def Let_def)
qed

lemma fl_normal:
  assumes "- 1022 \<le> k" "k \<le> 1022"
    and "2 ^ 52 * 2 powi (k - 52) \<le> \<bar>x\<bar>" "\<bar>x\<bar> < 2 ^ 53 * 2 powi (k - 52)"
    and "of_int m - 1 / 2 < x / 2 powi (k - 52)" "x / 2 powi (k - 52) < of_int m + 1 / 2"
    and "y = of_int m * 2 powi (k - 52)"
  shows "fl s x = Num y"
proof -
  have lo: "2 powi k \<le> \<bar>x\<bar>" using assms(3) by (simp only: powi2_split [symmetric])
  have hi: "\<bar>x\<bar> < 2 powi (k + 1)" using assms(4) by (simp only: powi2_split' [symmetric])
  have "(2::real) powi (- 1022) \<le> 2 powi k" using assms(1) by (simp only: powi2_le_iff)
  with lo have 1: "2 powi (- 1022) \<le> \<bar>x\<bar>" by linarith
  have "k + 1 \<le> 1023" using assms(2) by simp
  then have "(2::real) powi (k + 1) \<le> 2 powi 1023" by (simp only: powi2_le_iff)
  with hi have 2: "\<bar>x\<bar> < 2 powi 1023" by linarith
  have "round_even (x / 2 powi (k - 52)) = m" using assms(5,6) by (rule round_even_eqI)
  then have "rnd64 x = of_int m * 2 powi (k - 52)"
    using assms(1,3,4) by (intro rnd64_eval) simp_all
  then show ?thesis using fl_finite [OF 1 2] assms(7) by simp
qed

lemma fl_normal_tie:
  assumes "- 1022 \<le> k" "k \<le> 1022"
    and "2 ^ 52 * 2 powi (k - 52) \<le> \<bar>x\<bar>" "\<bar>x\<bar> < 2 ^ 53 * 2 powi (k - 52)"
    and "x / 2 powi (k - 52) = of_int m + 1 / 2 \<or> x / 2 powi (k - 52) = of_int m - 1 / 2"
    and "even m" "y = of_int m * 2 powi (k - 52)"
  shows "fl s x = Num y"
proof -
  have lo: "2 powi k \<le> \<bar>x\<bar>" using assms(3) by (simp only: powi2_split [symmetric])
  have hi: "\<bar>x\<bar> < 2 powi (k + 1)" using assms(4) by (simp only: powi2_split' [symmetric])
  have "(2::real) powi (- 1022) \<le> 2 powi k" using assms(1) by (simp only: powi2_le_iff)
  with lo have 1: "2 powi (- 1022) \<le> \<bar>x\<bar>" by linarith
  have "k + 1 \<le> 1023" using assms(2) by simp
  then have "(2::real) powi (k + 1) \<le> 2 powi 1023" by (simp only: powi2_le_iff)
  with hi have 2: "\<bar>x\<bar> < 2 powi 1023" by linarith
  have "round_even (x / 2 powi (k - 52)) = m"
    using assms(5,6) round_even_tie_even [of _ m] round_even_tie_odd [of _ m] by blast
  then have "rnd64 x = of_int m * 2 powi (k - 52)"
    using assms(1,3,4) by (intro rnd64_eval) simp_all
  then show ?thesis using fl_finite [OF 1 2] assms(7) by simp
qed

lemma fl_of_int:
  assumes "n \<noteq> 0" "\<bar>n\<bar> \<le> 2 ^ 53"
  shows "fl s (of_int n) = Num (of_int n)"
proof -
  have "1 \<le> \<bar>n\<bar>" using assms(1) by simp
  then have "(1::real) \<le> of_int \<bar>n\<bar>" by (simp only: of_int_1_le_iff)
  moreover have "(2::real) powi (- 1022) \<le> 2 powi 0" by (simp only: powi2_le_iff)
  ultimately have 1: "2 powi (- 1022) \<le> \<bar>real_of_int n\<bar>" by simp
  have "(of_int \<bar>n\<bar> :: real) \<le> of_int (2 ^ 53)" using assms(2) by (simp only: of_int_le_iff)
  moreover have "(2::real) powi 53 < 2 powi 1023" by (simp only: powi2_less_iff)
  ultimately have 2: "\<bar>real_of_int n\<bar> < 2 powi 1023" by simp
  show ?thesis using fl_finite [OF 1 2] rnd64_of_int [OF assms(2)] by simp
qed

lemma fl_numeral:
  "numeral w \<le> (2 ^ 53 :: int) \<Longrightarrow> fl s (numeral w) = Num (numeral w)"
  using fl_of_int [of "numeral w" s] by simp

lemma double_numeral: "numeral w \<le> (2 ^ 53 :: int) \<Longrightarrow> double (numeral w) = Num (numeral w)"
  by (simp add: double_def fl_numeral)

subsection \<open>Operations on finite values\<close>

lemma jmul_Num: "jmul (Num x) (Num y) = fl ((x < 0) \<noteq> (y < 0)) (x * y)"
  by (simp add: jmul_def)

lemma jdiv_Num: "y \<noteq> 0 \<Longrightarrow> jdiv (Num x) (Num y) = fl ((x < 0) \<noteq> (y < 0)) (x / y)"
  by (simp add: jdiv_def is_zero_def)

lemma jadd_Num: "x + y \<noteq> 0 \<Longrightarrow> jadd (Num x) (Num y) = fl (x + y < 0) (x + y)"
  by (simp add: jadd_def)

lemma jsub_Num: "x \<noteq> y \<Longrightarrow> jsub (Num x) (Num y) = fl (x - y < 0) (x - y)"
  by (simp add: jsub_def jadd_def)

lemma jmul_normal:
  assumes "- 1022 \<le> k" "k \<le> 1022"
    and "2 ^ 52 * 2 powi (k - 52) \<le> \<bar>x * y\<bar>" "\<bar>x * y\<bar> < 2 ^ 53 * 2 powi (k - 52)"
    and "of_int m - 1 / 2 < x * y / 2 powi (k - 52)" "x * y / 2 powi (k - 52) < of_int m + 1 / 2"
    and "r = of_int m * 2 powi (k - 52)"
  shows "jmul (Num x) (Num y) = Num r"
  unfolding jmul_Num using assms by (rule fl_normal)

lemma jdiv_normal:
  assumes "- 1022 \<le> k" "k \<le> 1022"
    and "2 ^ 52 * 2 powi (k - 52) \<le> \<bar>x / y\<bar>" "\<bar>x / y\<bar> < 2 ^ 53 * 2 powi (k - 52)"
    and "of_int m - 1 / 2 < x / y / 2 powi (k - 52)" "x / y / 2 powi (k - 52) < of_int m + 1 / 2"
    and "r = of_int m * 2 powi (k - 52)"
  shows "jdiv (Num x) (Num y) = Num r"
proof -
  have "(0::real) < 2 ^ 52 * 2 powi (k - 52)" by simp
  with assms(3) have "0 < \<bar>x / y\<bar>" by linarith
  then have "y \<noteq> 0" by auto
  then show ?thesis unfolding jdiv_Num [OF \<open>y \<noteq> 0\<close>] using assms by (intro fl_normal)
qed

lemma jadd_normal:
  assumes "- 1022 \<le> k" "k \<le> 1022"
    and "2 ^ 52 * 2 powi (k - 52) \<le> \<bar>x + y\<bar>" "\<bar>x + y\<bar> < 2 ^ 53 * 2 powi (k - 52)"
    and "of_int m - 1 / 2 < (x + y) / 2 powi (k - 52)" "(x + y) / 2 powi (k - 52) < of_int m + 1 / 2"
    and "r = of_int m * 2 powi (k - 52)"
  shows "jadd (Num x) (Num y) = Num r"
proof -
  have "(0::real) < 2 ^ 52 * 2 powi (k - 52)" by simp
  with assms(3) have "0 < \<bar>x + y\<bar>" by linarith
  then have nz: "x + y \<noteq> 0" by auto
  show ?thesis unfolding jadd_Num [OF nz] using assms by (intro fl_normal)
qed


lemma double_normal:
  assumes "- 1022 \<le> k" "k \<le> 1022"
    and "2 ^ 52 * 2 powi (k - 52) \<le> \<bar>x\<bar>" "\<bar>x\<bar> < 2 ^ 53 * 2 powi (k - 52)"
    and "of_int m - 1 / 2 < x / 2 powi (k - 52)" "x / 2 powi (k - 52) < of_int m + 1 / 2"
    and "r = of_int m * 2 powi (k - 52)"
  shows "double x = Num r"
  unfolding double_def using assms by (rule fl_normal)

lemma Math_round_eval:
  assumes "of_int n - 1 / 2 \<le> x" "x < of_int n + 1 / 2" "n \<noteq> 0" "r = of_int n"
  shows "Math_round (Num x) = Num r"
proof -
  have "\<lfloor>x + 1 / 2\<rfloor> = n" using assms(1,2) by (intro floor_unique) linarith+
  then show ?thesis using assms(3,4) by simp
qed

lemma Math_ceil_eval:
  assumes "of_int n - 1 < x" "x \<le> of_int n" "n \<noteq> 0" "r = of_int n"
  shows "Math_ceil (Num x) = Num r"
proof -
  have "\<lceil>x\<rceil> = n" using assms(1,2) by (intro ceiling_unique) linarith+
  then show ?thesis using assms(3,4) by simp
qed

declare Math_round.simps(1) [simp del] Math_ceil.simps(1) [simp del]

section \<open>Properties of the number model\<close>

lemma fl_zero [simp]: "fl s 0 = signed_zero s"
  by (simp add: fl_def)

lemma fl_one [simp]: "fl s 1 = Num 1"
  using fl_of_int [of 1 s] by simp

lemma signed_inf_not_finite [simp]: "\<not> is_finite (signed_inf s)"
  by (cases s) simp_all

lemma signed_zero_finite [simp]: "is_finite (signed_zero s)"
  by (cases s) simp_all

lemma signed_zero_val [simp]: "val (signed_zero s) = 0"
  by (cases s) simp_all

lemma signed_zero_neg [simp]: "is_neg (signed_zero s) = s"
  by (cases s) simp_all

lemma signed_zero_is_zero [simp]: "is_zero (signed_zero s)"
  by (cases s) (simp_all add: is_zero_def)

lemma signed_zero_not_special [simp]:
  "signed_zero s \<noteq> NaN" "signed_zero s \<noteq> PosInf" "signed_zero s \<noteq> NegInf"
  "\<not> is_inf (signed_zero s)"
  by (cases s; simp)+

lemma signed_inf_not_nan [simp]: "signed_inf s \<noteq> NaN" "is_inf (signed_inf s)"
  by (cases s; simp)+

lemma jgt_Num_cases: "jgt v (Num 0) \<Longrightarrow> (\<exists>x. v = Num x \<and> 0 < x) \<or> v = PosInf"
  by (cases v) (auto simp: jgt_def jlt_def)

lemma solids_cases: "jgt v (Num 0) \<Longrightarrow> jle v (Num 100) \<Longrightarrow> \<exists>x. v = Num x \<and> 0 < x \<and> x \<le> 100"
  by (cases v) (auto simp: jgt_def jlt_def jle_def)

lemma jgt_not_jle: "jgt v (Num 0) \<Longrightarrow> \<not> jle v (Num 0)"
  by (cases v) (auto simp: jgt_def jlt_def jle_def)

lemma jle_not_jgt: "jle v (Num k) \<Longrightarrow> \<not> jgt v (Num k)"
  by (cases v) (auto simp: jgt_def jlt_def jle_def)

lemma js_round1: "jdiv (Math_round (jmul v (Num 10))) (Num 10) = js_round 1 v"
  by (simp add: js_round_def)

lemma js_round2: "jdiv (Math_round (jmul v (Num 100))) (Num 100) = js_round 2 v"
  by (simp add: js_round_def)

lemma js_ceil1: "jdiv (Math_ceil (jmul v (Num 10))) (Num 10) = js_ceil 1 v"
  by (simp add: js_ceil_def)

subsection \<open>The relative error of an operation\<close>

text \<open>
  An operation whose exact result lies in the range of the normal doubles delivers a
  finite value within a relative distance of \<open>2 powi - 53\<close> of it.
\<close>

lemma fl_close:
  assumes "2 powi (- 1022) \<le> \<bar>x\<bar>" "\<bar>x\<bar> < 2 powi 1023"
  shows "\<exists>y. fl s x = Num y \<and> \<bar>y - x\<bar> \<le> \<bar>x\<bar> / 2 ^ 53"
  using fl_finite [OF assms] rnd64_rel_error [OF assms(1)] by blast

lemma moderate_range:
  fixes x :: real
  assumes "1 / 2 ^ 1000 \<le> \<bar>x\<bar>" "\<bar>x\<bar> \<le> 2 ^ 1000"
  shows "2 powi (- 1022) \<le> \<bar>x\<bar>" "\<bar>x\<bar> < 2 powi 1023"
proof -
  have "(2::real) powi (- 1022) \<le> 2 powi (- 1000)" by (simp only: powi2_le_iff)
  also have "(2::real) powi (- 1000) = 1 / 2 ^ 1000"
    by (simp only: power_int_minus_divide power_int_numeral)
  finally show "2 powi (- 1022) \<le> \<bar>x\<bar>" using assms(1) by linarith
  have "(2::real) powi 1000 < 2 powi 1023" by (simp only: powi2_less_iff)
  moreover have "(2::real) powi 1000 = 2 ^ 1000" by (simp only: power_int_numeral)
  ultimately show "\<bar>x\<bar> < 2 powi 1023" using assms(2) by linarith
qed

lemma fl_close_moderate:
  assumes "1 / 2 ^ 1000 \<le> \<bar>x\<bar>" "\<bar>x\<bar> \<le> 2 ^ 1000"
  shows "\<exists>y. fl s x = Num y \<and> \<bar>y - x\<bar> \<le> \<bar>x\<bar> / 2 ^ 53"
  using moderate_range [OF assms] by (rule fl_close)






text \<open>The same bounds for a positive exact result, with the numeral \<open>2 ^ 53\<close> written out.\<close>

lemma fl_pos:
  assumes "1 / 2 ^ 1000 \<le> x" "x \<le> 2 ^ 1000"
  shows "\<exists>y. fl s x = Num y \<and> x - x / 9007199254740992 \<le> y \<and> y \<le> x + x / 9007199254740992"
proof -
  have "(0::real) < 1 / 2 ^ 1000" by simp
  with assms(1) have pos: "0 < x" by linarith
  then have "1 / 2 ^ 1000 \<le> \<bar>x\<bar>" "\<bar>x\<bar> \<le> 2 ^ 1000" using assms by simp_all
  then obtain y where y: "fl s x = Num y" and e: "\<bar>y - x\<bar> \<le> \<bar>x\<bar> / 2 ^ 53"
    using fl_close_moderate by blast
  have "\<bar>x\<bar> / 2 ^ 53 = x / 9007199254740992" using pos by simp
  with e have "\<bar>y - x\<bar> \<le> x / 9007199254740992" by simp
  then have "x - x / 9007199254740992 \<le> y" "y \<le> x + x / 9007199254740992" by linarith+
  with y show ?thesis by blast
qed

lemma jmul_pos:
  assumes "1 / 2 ^ 1000 \<le> x * y" "x * y \<le> 2 ^ 1000"
  shows "\<exists>r. jmul (Num x) (Num y) = Num r
           \<and> x * y - x * y / 9007199254740992 \<le> r \<and> r \<le> x * y + x * y / 9007199254740992"
  unfolding jmul_Num using assms by (rule fl_pos)

lemma jdiv_pos:
  assumes "1 / 2 ^ 1000 \<le> x / y" "x / y \<le> 2 ^ 1000"
  shows "\<exists>r. jdiv (Num x) (Num y) = Num r
           \<and> x / y - x / y / 9007199254740992 \<le> r \<and> r \<le> x / y + x / y / 9007199254740992"
proof -
  have "(0::real) < 1 / 2 ^ 1000" by simp
  with assms(1) have "0 < x / y" by linarith
  then have "y \<noteq> 0" by auto
  then show ?thesis unfolding jdiv_Num [OF \<open>y \<noteq> 0\<close>] using assms by (intro fl_pos)
qed

lemma jadd_pos:
  assumes "1 / 2 ^ 1000 \<le> x + y" "x + y \<le> 2 ^ 1000"
  shows "\<exists>r. jadd (Num x) (Num y) = Num r
           \<and> x + y - (x + y) / 9007199254740992 \<le> r \<and> r \<le> x + y + (x + y) / 9007199254740992"
proof -
  have "(0::real) < 1 / 2 ^ 1000" by simp
  with assms(1) have "0 < x + y" by linarith
  then have nz: "x + y \<noteq> 0" by auto
  show ?thesis unfolding jadd_Num [OF nz] using assms by (intro fl_pos)
qed

lemma jsub_pos:
  assumes "1 / 2 ^ 1000 \<le> x - y" "x - y \<le> 2 ^ 1000"
  shows "\<exists>r. jsub (Num x) (Num y) = Num r
           \<and> x - y - (x - y) / 9007199254740992 \<le> r \<and> r \<le> x - y + (x - y) / 9007199254740992"
proof -
  have "(0::real) < 1 / 2 ^ 1000" by simp
  with assms(1) have "0 < x - y" by linarith
  then have nz: "x \<noteq> y" by auto
  show ?thesis unfolding jsub_Num [OF nz] using assms by (intro fl_pos)
qed


section \<open>The dew point\<close>







section \<open>Degenerate inputs\<close>

text \<open>
  A quotient by zero or by \<open>NaN\<close> is never finite, and rounding keeps it so.
\<close>

lemma js_round1_not_finite:
  "\<not> is_finite v \<Longrightarrow> \<not> is_finite (jdiv (Math_round (jmul v (Num 10))) (Num 10))"
  by (cases v) (simp_all add: jmul_def jdiv_def is_zero_def)

lemma jdiv_zero_not_finite: "\<not> is_finite (jdiv v (Num 0))"
  by (cases v) (simp_all add: jdiv_def is_zero_def)

lemma jdiv_NegZero_not_finite: "\<not> is_finite (jdiv v NegZero)"
  by (cases v) (simp_all add: jdiv_def is_zero_def)

lemma jdiv_NaN_not_finite: "\<not> is_finite (jdiv v NaN)"
  by (cases v) (simp_all add: jdiv_def)

lemma jmul_not_finite: "\<not> is_finite v \<Longrightarrow> \<not> is_finite (jmul v (Num 100))"
  by (cases v) (simp_all add: jmul_def is_zero_def)

lemma no_thinning_left: "jsub (Num 1) (jdiv (Num 100) (Num 100)) = Num 0"
  by (simp add: jdiv_Num jsub_def jadd_def)

lemma full_thinning_solids:
  "reductionPercent k = Some (Num 100) \<Longrightarrow>
     wft_adjustedSolids k
       = (if is_finite (WFTInput.volumeSolids k) then signed_zero (is_neg (WFTInput.volumeSolids k))
          else NaN)"
  by (cases "WFTInput.volumeSolids k")
     (simp_all add: wft_adjustedSolids_def no_thinning_left jmul_def is_zero_def)

lemma rounded_zero: "js_round 1 (signed_zero s) = signed_zero s"
  by (cases s) (simp_all add: js_round_def jmul_def jdiv_def is_zero_def Math_round.simps)

lemma calculateWFT_thickness:
  "\<exists>r. calculateWFT k = Inr r
     \<and> wetFilmThickness r
         = jdiv (Math_round (jmul (jmul (jdiv (WFTInput.targetDFT k) (wft_adjustedSolids k))
                                        (Num 100)) (Num 10))) (Num 10)
     \<and> adjustedSolids r = jdiv (Math_round (jmul (wft_adjustedSolids k) (Num 10))) (Num 10)"
  by (simp add: calculateWFT_def Let_def)

lemma calculateROI_payback:
  "\<exists>r. calculateROI j = Inr r
     \<and> paybackPeriod (roi r)
         = jdiv (Math_round (jmul (jdiv (ProposedSystem.initialCost (ROIInput.proposedSystem j))
                                        (raw_annualSavings (roi_locals j))) (Num 10))) (Num 10)"
  by (simp add: calculateROI_def roi_locals_def Let_def)

text \<open>The annual savings of two systems with the same yearly cost.\<close>

lemma zero_savings_locals: "raw_annualSavings (roi_locals zero_savings_input) = Num 0"
proof -
  have q: "jdiv (Num 1000) (Num 10) = Num 100"
    by (rule jdiv_normal [where k = 6 and m = 7036874417766400]) simp_all
  have d12: "double 0.12 = Num (8646911284551352 / 72057594037927936)"
    by (rule double_normal [where k = "- 4" and m = 8646911284551352]) simp_all
  have d01: "double 0.01 = Num (5764607523034235 / 576460752303423488)"
    by (rule double_normal [where k = "- 7" and m = 5764607523034235]) simp_all
  have d15: "double 0.0015 = Num (6917529027641082 / 4611686018427387904)"
    by (rule double_normal [where k = "- 10" and m = 6917529027641082]) simp_all
  have e1: "jmul (jmul (jmul (Num 0) (Num 10000)) (double 0.12)) (double 0.01) = Num 0"
    unfolding d12 d01 by (simp add: jmul_def)
  have e2: "jmul (jmul (jmul (Num 0) (Num 10000)) (double 0.12)) (double 0.0015) = Num 0"
    unfolding d12 d15 by (simp add: jmul_def)
  have s1: "jadd (Num 100) (Num 0) = Num 100" by (simp add: jadd_def fl_numeral)
  have s2: "jsub (Num 100) (Num 0) = Num 100" by (simp add: jsub_def jadd_def fl_numeral)
  have s3: "jsub (Num 100) (Num 100) = Num 0" by (simp add: jsub_def jadd_def)
  show ?thesis
    unfolding roi_locals_def zero_savings_input_def Let_def
    by (simp only: ROIInput.simps CurrentSystem.simps ProposedSystem.simps ROILocals.simps
          dflt.simps or_else.simps q e1 e2 s1 s2 s3)
qed

section \<open>The loop over the layers\<close>

text \<open>
  One call of the callback in terms of \<open>spec_layer\<close>, and then the whole loop, by
  induction on the list of layer names with the state of the loop generalised.
\<close>

lemma process_layer_spec:
  "process_layer a sys e lt st =
     (case sys lt of
        None \<Rightarrow> Inr st
      | Some l \<Rightarrow>
          if jgt (CoatingLayer.coats l) (Num 0) then
            (case spec_layer a e l of
               Inl err \<Rightarrow> Inl err
             | Inr r \<Rightarrow>
                 Inr \<lparr>acc_layers = (acc_layers st)(lt \<mapsto> r),
                      acc_totalCost = jadd (acc_totalCost st) (spec_layer_cost l r),
                      acc_totalDFT = jadd (acc_totalDFT st) (LayerResult.totalDFT r),
                      acc_totalGallons =
                        jadd (acc_totalGallons st) (CoverageResult.totalGallons r)\<rparr>)
          else Inr st)"
  by (simp add: process_layer_def spec_layer_def layer_input_def layer_price_def
        spec_layer_cost_def js_round2 Let_def CoverageResult.defs LayerResult.defs
      split: option.split sum.split)

lemma included_layers_Nil: "included_layers sys [] = []"
  by (simp add: included_layers_def map_filter_simps)

lemma included_layers_Cons:
  "included_layers sys (lt # lts) =
     (case sys lt of
        None \<Rightarrow> included_layers sys lts
      | Some l \<Rightarrow>
          if jgt (CoatingLayer.coats l) (Num 0) then (lt, l) # included_layers sys lts
          else included_layers sys lts)"
  by (simp add: included_layers_def map_filter_simps split: option.split)

lemma forEach_spec_layers:
  "forEach (process_layer a sys e) lts st =
     (case spec_layers a e (included_layers sys lts) of
        Inl err \<Rightarrow> Inl err
      | Inr rs \<Rightarrow>
          Inr \<lparr>acc_layers = foldl (\<lambda>m (lt, l, r). m(lt \<mapsto> r)) (acc_layers st) rs,
               acc_totalCost =
                 foldl jadd (acc_totalCost st) (map (\<lambda>(lt, l, r). spec_layer_cost l r) rs),
               acc_totalDFT =
                 foldl jadd (acc_totalDFT st) (map (\<lambda>(lt, l, r). LayerResult.totalDFT r) rs),
               acc_totalGallons =
                 foldl jadd (acc_totalGallons st)
                   (map (\<lambda>(lt, l, r). CoverageResult.totalGallons r) rs)\<rparr>)"
proof (induction lts arbitrary: st)
  case Nil
  show ?case by (simp add: included_layers_Nil)
next
  case (Cons lt lts)
  show ?case
  proof (cases "sys lt")
    case None
    then have "process_layer a sys e lt st = Inr st"
      by (simp add: process_layer_spec)
    with None show ?thesis
      by (simp add: included_layers_Cons Cons.IH)
  next
    case (Some l)
    show ?thesis
    proof (cases "jgt (CoatingLayer.coats l) (Num 0)")
      case False
      with Some have "process_layer a sys e lt st = Inr st"
        by (simp add: process_layer_spec)
      with Some False show ?thesis
        by (simp add: included_layers_Cons Cons.IH)
    next
      case True
      show ?thesis
      proof (cases "spec_layer a e l")
        case (Inl err)
        with Some True have "process_layer a sys e lt st = Inl err"
          by (simp add: process_layer_spec)
        with Some True Inl show ?thesis
          by (simp add: included_layers_Cons)
      next
        case (Inr r)
        with Some True have "process_layer a sys e lt st =
            Inr \<lparr>acc_layers = (acc_layers st)(lt \<mapsto> r),
                 acc_totalCost = jadd (acc_totalCost st) (spec_layer_cost l r),
                 acc_totalDFT = jadd (acc_totalDFT st) (LayerResult.totalDFT r),
                 acc_totalGallons =
                   jadd (acc_totalGallons st) (CoverageResult.totalGallons r)\<rparr>"
          by (simp add: process_layer_spec)
        with Some True Inr show ?thesis
          by (simp add: included_layers_Cons Cons.IH split: sum.split)
      qed
    qed
  qed
qed

lemma foldl_layers_map_of:
  "distinct (map fst rs) \<Longrightarrow>
     foldl (\<lambda>m (lt, l, r). m(lt \<mapsto> r)) m rs = m ++ map_of (map (\<lambda>(lt, l, r). (lt, r)) rs)"
proof (induction rs arbitrary: m)
  case Nil
  show ?case by simp
next
  case (Cons x rs)
  obtain lt l r where x: "x = (lt, l, r)" by (cases x) auto
  from Cons.prems have d: "distinct (map fst rs)" and n: "lt \<notin> fst ` set rs"
    by (simp_all add: x)
  have "fst ` set (map (\<lambda>(lt, l, r). (lt, r)) rs) = fst ` set rs"
    by (force simp: image_iff)
  with n have "lt \<notin> dom (map_of (map (\<lambda>(lt, l, r). (lt, r)) rs))"
    by (simp only: dom_map_of_conv_image_fst not_False_eq_True)
  then have swap: "m(lt \<mapsto> r) ++ map_of (map (\<lambda>(lt, l, r). (lt, r)) rs)
               = (m ++ map_of (map (\<lambda>(lt, l, r). (lt, r)) rs))(lt \<mapsto> r)"
    by (auto simp: map_add_def fun_eq_iff split: option.split)
  have "foldl (\<lambda>m (lt, l, r). m(lt \<mapsto> r)) m (x # rs)
          = foldl (\<lambda>m (lt, l, r). m(lt \<mapsto> r)) (m(lt \<mapsto> r)) rs"
    by (simp only: foldl.simps x split_conv)
  also have "\<dots> = m(lt \<mapsto> r) ++ map_of (map (\<lambda>(lt, l, r). (lt, r)) rs)"
    by (rule Cons.IH [OF d])
  also note swap
  also have "(m ++ map_of (map (\<lambda>(lt, l, r). (lt, r)) rs))(lt \<mapsto> r)
               = m ++ map_of (map (\<lambda>(lt, l, r). (lt, r)) (x # rs))"
    by (simp only: x list.map split_conv map_of.simps fst_conv snd_conv map_add_upd)
  finally show ?case .
qed

lemma spec_layers_keys:
  "spec_layers a e inc = Inr rs \<Longrightarrow> map fst rs = map fst inc"
proof (induction inc arbitrary: rs)
  case Nil
  then show ?case by simp
next
  case (Cons x inc)
  obtain lt l where x: "x = (lt, l)" by (cases x)
  from Cons.prems Cons.IH show ?case
    by (auto simp: x split: sum.splits)
qed

lemma included_layers_keys:
  "map fst (included_layers sys lts)
     = filter (\<lambda>lt. \<exists>l. sys lt = Some l \<and> jgt (CoatingLayer.coats l) (Num 0)) lts"
  by (induction lts) (auto simp: included_layers_Nil included_layers_Cons split: option.split)

lemma description_spec:
  assumes "map fst rs = filter P [primer, intermediate, topcoat]"
  shows "generateSystemDescription (map_of (map (\<lambda>(lt, l, r). (lt, r)) rs))
           = join [Lit '' | ''] (map (\<lambda>(lt, l, r). spec_description lt r) rs)"
  using assms
  by (cases "P primer"; cases "P intermediate"; cases "P topcoat")
     (auto simp: map_eq_Cons_conv generateSystemDescription_def describe_layer_def
        spec_description_def)

lemma multiCoat_refines:
  "calculateMultiCoatSystem input = spec_multiCoat input"
proof -
  let ?a = "MultiCoatInput.surfaceArea input"
  let ?e = "dflt (MultiCoatInput.transferEfficiency input) (Num 65)"
  let ?inc = "included_layers (system input) [primer, intermediate, topcoat]"
  let ?P = "\<lambda>lt. \<exists>l. system input lt = Some l \<and> jgt (CoatingLayer.coats l) (Num 0)"
  show ?thesis
  proof (cases "spec_layers ?a ?e ?inc")
    case (Inl err)
    then show ?thesis
      unfolding calculateMultiCoatSystem_def spec_multiCoat_def Let_def forEach_spec_layers
      by simp
  next
    case (Inr rs)
    from spec_layers_keys [OF Inr] have keys: "map fst rs = filter ?P [primer, intermediate, topcoat]"
      by (simp only: included_layers_keys)
    then have "distinct (map fst rs)" by simp
    then have m: "foldl (\<lambda>m (lt, l, r). m(lt \<mapsto> r)) Map.empty rs
                    = map_of (map (\<lambda>(lt, l, r). (lt, r)) rs)"
      by (simp add: foldl_layers_map_of)
    note d = description_spec [OF keys]
    from Inr show ?thesis
      unfolding calculateMultiCoatSystem_def spec_multiCoat_def Let_def forEach_spec_layers
      by (simp add: m d js_round1 js_round2 jsum_def)
  qed
qed

lemma multiCoat_layer_entries:
  assumes "calculateMultiCoatSystem input = Inr res"
  shows "case system input lt of
           None \<Rightarrow> layers res lt = None
         | Some l \<Rightarrow>
             if jgt (CoatingLayer.coats l) (Num 0)
             then \<exists>r. spec_layer (MultiCoatInput.surfaceArea input)
                         (dflt (MultiCoatInput.transferEfficiency input) (Num 65)) l = Inr r
                      \<and> layers res lt = Some r
             else layers res lt = None"
  using assms
  unfolding calculateMultiCoatSystem_def Let_def forEach.simps process_layer_spec
  by (cases lt) (auto split: option.splits sum.splits if_splits)

lemma spec_layer_coverage:
  "spec_layer a e l = Inr r \<Longrightarrow>
     \<exists>c. calculatePaintCoverage
            \<lparr>CoverageInput.surfaceArea = a,
             CoverageInput.coats = Some (CoatingLayer.coats l),
             CoverageInput.volumeSolids = CoatingLayer.volumeSolids l,
             targetDFT = dft l,
             CoverageInput.transferEfficiency = Some e,
             CoverageInput.pricePerGallon =
               Some (or_else (CoatingLayer.pricePerGallon l) (Num 0))\<rparr> = Inr c
        \<and> r = CoverageResult.extend c
                (LayerResult.fields (jmul (dft l) (CoatingLayer.coats l))
                   (js_round 2
                      (jmul (CoverageResult.totalGallons c)
                            (or_else (CoatingLayer.pricePerGallon l) (Num 0)))))"
  by (auto simp: spec_layer_def spec_layer_cost_def layer_price_def split: sum.splits)

lemma spec_layer_invalid:
  assumes "jle a (Num 0) \<or> jle (CoatingLayer.volumeSolids l) (Num 0)
             \<or> jgt (CoatingLayer.volumeSolids l) (Num 100) \<or> jle (dft l) (Num 0)"
  shows "\<exists>m. spec_layer a e l = Inl (InvalidInput m)"
  using assms by (auto simp: spec_layer_def calculatePaintCoverage_def Let_def)

section \<open>Validation of the coverage input\<close>

lemma calculatePaintCoverage_valid:
  assumes "jgt a (Num 0)" "jgt s (Num 0)" "jle s (Num 100)" "jgt d (Num 0)"
  shows "calculatePaintCoverage \<lparr>CoverageInput.surfaceArea = a, CoverageInput.coats = c,
            CoverageInput.volumeSolids = s, CoverageInput.targetDFT = d,
            CoverageInput.transferEfficiency = e, CoverageInput.pricePerGallon = p\<rparr>
         = Inr (coverage_return (coverage_locals a (dflt c (Num 1)) s d (dflt e (Num 65)) (dflt p (Num 0))))"
  using assms by (simp add: calculatePaintCoverage_def Let_def jgt_not_jle jle_not_jgt)

text \<open>
  Claim C4. \<open>calculatePaintCoverage\<close> raises \<open>InvalidInput\<close> exactly when
  \<open>surfaceArea <= 0\<close>, or \<open>volumeSolids <= 0\<close>, or \<open>volumeSolids > 100\<close>, or
  \<open>targetDFT <= 0\<close>, and returns a result otherwise. In particular an area of 0, solids
  of 0 or 101 and a DFT of 0 raise whatever the other fields are, while solids of 100 and
  a DFT of 0.0001 succeed when the other validated fields are in range.
\<close>

theorem calculatePaintCoverage_validation:
  "((\<exists>m. calculatePaintCoverage i = Inl (InvalidInput m)) \<longleftrightarrow>
      (jle (CoverageInput.surfaceArea i) (Num 0) \<or> jle (CoverageInput.volumeSolids i) (Num 0)
        \<or> jgt (CoverageInput.volumeSolids i) (Num 100) \<or> jle (CoverageInput.targetDFT i) (Num 0)))
   \<and> ((\<exists>r. calculatePaintCoverage i = Inr r) \<longleftrightarrow>
      \<not> (jle (CoverageInput.surfaceArea i) (Num 0) \<or> jle (CoverageInput.volumeSolids i) (Num 0)
        \<or> jgt (CoverageInput.volumeSolids i) (Num 100) \<or> jle (CoverageInput.targetDFT i) (Num 0)))
   \<and> (\<exists>m. calculatePaintCoverage (i\<lparr>CoverageInput.surfaceArea := Num 0\<rparr>) = Inl (InvalidInput m))
   \<and> (\<exists>m. calculatePaintCoverage (i\<lparr>CoverageInput.volumeSolids := Num 0\<rparr>) = Inl (InvalidInput m))
   \<and> (\<exists>m. calculatePaintCoverage (i\<lparr>CoverageInput.volumeSolids := Num 101\<rparr>) = Inl (InvalidInput m))
   \<and> (\<exists>m. calculatePaintCoverage (i\<lparr>CoverageInput.targetDFT := Num 0\<rparr>) = Inl (InvalidInput m))
   \<and> (jgt (CoverageInput.surfaceArea i) (Num 0) \<and> jgt (CoverageInput.targetDFT i) (Num 0) \<longrightarrow>
        (\<exists>r. calculatePaintCoverage (i\<lparr>CoverageInput.volumeSolids := Num 100\<rparr>) = Inr r))
   \<and> (jgt (CoverageInput.surfaceArea i) (Num 0) \<and> jgt (CoverageInput.volumeSolids i) (Num 0)
        \<and> jle (CoverageInput.volumeSolids i) (Num 100) \<longrightarrow>
        (\<exists>r. calculatePaintCoverage (i\<lparr>CoverageInput.targetDFT := Num 0.0001\<rparr>) = Inr r))"
  by (cases "CoverageInput.surfaceArea i"; cases "CoverageInput.volumeSolids i";
      cases "CoverageInput.targetDFT i")
     (simp_all add: calculatePaintCoverage_def Let_def jgt_def jlt_def jle_def)

theorem calculatePaintCoverage_validation_witness:
  "jgt (Num 1000) (Num 0) \<and> jgt (Num 5) (Num 0) \<and> jgt (Num 65) (Num 0) \<and> jle (Num 65) (Num 100)
   \<and> (\<exists>r. calculatePaintCoverage
          \<lparr>CoverageInput.surfaceArea = Num 1000, CoverageInput.coats = Some (Num 1),
           CoverageInput.volumeSolids = Num 100, CoverageInput.targetDFT = Num 5,
           CoverageInput.transferEfficiency = None, CoverageInput.pricePerGallon = None\<rparr> = Inr r)
   \<and> (\<exists>r. calculatePaintCoverage
          \<lparr>CoverageInput.surfaceArea = Num 1000, CoverageInput.coats = Some (Num 1),
           CoverageInput.volumeSolids = Num 65, CoverageInput.targetDFT = Num 0.0001,
           CoverageInput.transferEfficiency = None, CoverageInput.pricePerGallon = None\<rparr> = Inr r)
   \<and> (\<exists>m. calculatePaintCoverage
          \<lparr>CoverageInput.surfaceArea = Num 0, CoverageInput.coats = Some (Num 1),
           CoverageInput.volumeSolids = Num 65, CoverageInput.targetDFT = Num 5,
           CoverageInput.transferEfficiency = None, CoverageInput.pricePerGallon = None\<rparr>
          = Inl (InvalidInput m))"
  using calculatePaintCoverage_validation
          [of "\<lparr>CoverageInput.surfaceArea = Num 1000, CoverageInput.coats = Some (Num 1),
                CoverageInput.volumeSolids = Num 65, CoverageInput.targetDFT = Num 5,
                CoverageInput.transferEfficiency = None, CoverageInput.pricePerGallon = None\<rparr>"]
  by (simp add: jgt_def jlt_def jle_def)

section \<open>The dew point at 75 degrees and 65 percent\<close>



section \<open>Functions without validation\<close>

text \<open>
  Claim C9. For every input, \<open>calculateDewPoint\<close>, \<open>calculateROI\<close> and \<open>calculateWFT\<close>
  return a result and never raise \<open>InvalidInput\<close>. When the annual savings are zero, the
  payback period returned by \<open>calculateROI\<close> is \<open>NaN\<close> or an infinity; when the thinning
  percentage is 100, the adjusted solids of \<open>calculateWFT\<close> are zero (for finite volume
  solids; the zero has the sign of the volume solids, so it is \<open>Num 0\<close> unless they are
  negative) and the wet film thickness returned is \<open>NaN\<close> or an infinity.
\<close>

theorem no_validation_elsewhere:
  "(\<exists>r. calculateDewPoint i = Inr r) \<and> (\<exists>r. calculateROI j = Inr r)
   \<and> (\<exists>r. calculateWFT k = Inr r)
   \<and> (raw_annualSavings (roi_locals j) = Num 0 \<longrightarrow>
        (\<exists>r. calculateROI j = Inr r \<and> \<not> is_finite (paybackPeriod (roi r))))
   \<and> (reductionPercent k = Some (Num 100) \<longrightarrow>
        (\<exists>r. calculateWFT k = Inr r \<and> \<not> is_finite (wetFilmThickness r)
           \<and> (is_finite (WFTInput.volumeSolids k) \<longrightarrow>
                adjustedSolids r = signed_zero (is_neg (WFTInput.volumeSolids k)))))"
proof (intro conjI impI)
  show "\<exists>r. calculateDewPoint i = Inr r" by (simp add: calculateDewPoint_def)
  show "\<exists>r. calculateROI j = Inr r" by (simp add: calculateROI_def Let_def)
  show "\<exists>r. calculateWFT k = Inr r" by (simp add: calculateWFT_def Let_def)
next
  assume z: "raw_annualSavings (roi_locals j) = Num 0"
  from calculateROI_payback [of j] obtain r
    where r: "calculateROI j = Inr r"
      and p: "paybackPeriod (roi r)
         = jdiv (Math_round (jmul (jdiv (ProposedSystem.initialCost (ROIInput.proposedSystem j))
                                        (raw_annualSavings (roi_locals j))) (Num 10))) (Num 10)"
    by blast
  have "\<not> is_finite (paybackPeriod (roi r))"
    unfolding p z by (intro js_round1_not_finite jdiv_zero_not_finite)
  with r show "\<exists>r. calculateROI j = Inr r \<and> \<not> is_finite (paybackPeriod (roi r))" by blast
next
  assume h: "reductionPercent k = Some (Num 100)"
  from calculateWFT_thickness [of k] obtain r
    where r: "calculateWFT k = Inr r"
      and w: "wetFilmThickness r
         = jdiv (Math_round (jmul (jmul (jdiv (WFTInput.targetDFT k) (wft_adjustedSolids k))
                                        (Num 100)) (Num 10))) (Num 10)"
      and a: "adjustedSolids r = jdiv (Math_round (jmul (wft_adjustedSolids k) (Num 10))) (Num 10)"
    by blast
  have "\<not> is_finite (jdiv (WFTInput.targetDFT k) (wft_adjustedSolids k))"
    unfolding full_thinning_solids [OF h]
    using jdiv_zero_not_finite jdiv_NegZero_not_finite jdiv_NaN_not_finite
    by (cases "is_neg (WFTInput.volumeSolids k)") auto
  then have 1: "\<not> is_finite (wetFilmThickness r)"
    unfolding w by (intro js_round1_not_finite jmul_not_finite)
  have 2: "is_finite (WFTInput.volumeSolids k) \<longrightarrow>
             adjustedSolids r = signed_zero (is_neg (WFTInput.volumeSolids k))"
    using rounded_zero by (simp add: a full_thinning_solids [OF h] js_round_def)
  from r 1 2 show "\<exists>r. calculateWFT k = Inr r \<and> \<not> is_finite (wetFilmThickness r)
           \<and> (is_finite (WFTInput.volumeSolids k) \<longrightarrow>
                adjustedSolids r = signed_zero (is_neg (WFTInput.volumeSolids k)))"
    by blast
qed

theorem no_validation_elsewhere_witness:
  "raw_annualSavings (roi_locals zero_savings_input) = Num 0
   \<and> reductionPercent full_thinning_input = Some (Num 100)
   \<and> is_finite (WFTInput.volumeSolids full_thinning_input)
   \<and> (\<exists>r. calculateDewPoint dewPoint_example_input = Inr r)
   \<and> (\<exists>r. calculateROI zero_savings_input = Inr r \<and> paybackPeriod (roi r) = PosInf)
   \<and> (\<exists>r. calculateWFT full_thinning_input = Inr r \<and> wetFilmThickness r = PosInf
          \<and> adjustedSolids r = Num 0)"
proof -
  have z: "raw_annualSavings (roi_locals zero_savings_input) = Num 0"
    by (rule zero_savings_locals)
  have h: "reductionPercent full_thinning_input = Some (Num 100)"
    "is_finite (WFTInput.volumeSolids full_thinning_input)"
    by (simp_all add: full_thinning_input_def)
  note th = no_validation_elsewhere [of dewPoint_example_input zero_savings_input full_thinning_input]
  from th z obtain r1 where r1: "calculateROI zero_savings_input = Inr r1" by blast
  from th h obtain r2 where r2: "calculateWFT full_thinning_input = Inr r2" by blast
  have "paybackPeriod (roi r1)
          = jdiv (Math_round (jmul (jdiv (ProposedSystem.initialCost
                    (ROIInput.proposedSystem zero_savings_input))
                    (raw_annualSavings (roi_locals zero_savings_input))) (Num 10))) (Num 10)"
    using calculateROI_payback [of zero_savings_input] r1 by auto
  then have p: "paybackPeriod (roi r1) = PosInf"
    unfolding z by (simp add: zero_savings_input_def jdiv_def jmul_def is_zero_def)
  have a: "wft_adjustedSolids full_thinning_input = Num 0"
    using full_thinning_solids [OF h(1)] by (simp add: full_thinning_input_def)
  from r2 calculateWFT_thickness [of full_thinning_input]
  have w: "wetFilmThickness r2 = PosInf" "adjustedSolids r2 = Num 0"
    unfolding a
    by (auto simp add: full_thinning_input_def jdiv_def jmul_def is_zero_def Math_round.simps)
  from th have d: "\<exists>r. calculateDewPoint dewPoint_example_input = Inr r" by blast
  from z h d r1 r2 p w show ?thesis by blast
qed

section \<open>The spreading rate\<close>

text \<open>
  The result of \<open>calculateSpreadingRate\<close> for a wet film thickness \<open>w\<close> is the double
  nearest to \<open>n / 10\<close> for an integer \<open>n\<close> close to \<open>1604000 / w\<close>: each of the four
  operations before the rounding is off by a relative error of at most \<open>2 powi - 53\<close>,
  and the volume solids cancel in the exact quotient.
\<close>

lemma spreading_rate_near:
  fixes w s :: real
  assumes w: "1 / 2 ^ 20 \<le> w" "w \<le> 2 ^ 100" and s: "1 / 2 ^ 100 \<le> s" "s \<le> 2 ^ 100"
  shows "\<exists>n::int. calculateSpreadingRate (Num w) (Num s) = double (of_int n / 10)
           \<and> \<bar>of_int n - 1604000 / w\<bar> \<le> 502 / 1000"
proof -
  have "(0::real) < 1 / 2 ^ 20" "(0::real) < 1 / 2 ^ 100" by simp_all
  with w(1) s(1) have wpos: "0 < w" and spos: "0 < s" by linarith+
  define P where "P = w * s"
  define X where "X = 160400 / w"
  have Ppos: "0 < P" using wpos spos by (simp add: P_def)
  have Plo: "1 / 2 ^ 120 \<le> P"
  proof -
    have "(1 / 2 ^ 20) * (1 / 2 ^ 100) \<le> w * s" using w(1) s(1) by (intro mult_mono) simp_all
    then show ?thesis by (simp add: P_def)
  qed
  have Phi: "P \<le> 2 ^ 200"
  proof -
    have "w * s \<le> 2 ^ 100 * 2 ^ 100" using w(2) s(2) wpos spos by (intro mult_mono) simp_all
    then show ?thesis by (simp add: P_def)
  qed
  have Xpos: "0 < X" using wpos by (simp add: X_def)
  have Xhi: "X \<le> 168191590400"
  proof -
    have "160400 / w \<le> 160400 / (1 / 2 ^ 20)" using w(1) by (intro divide_left_mono) simp_all
    then show ?thesis by (simp add: X_def)
  qed
  have Xlo: "1 / 2 ^ 100 \<le> X"
  proof -
    have "1 / 2 ^ 100 \<le> 160400 / (2 ^ 100 :: real)" by simp
    also have "\<dots> \<le> 160400 / w" using w(2) wpos by (intro divide_left_mono) simp_all
    finally show ?thesis by (simp add: X_def)
  qed
  \<comment> \<open>the product \<open>wft * volumeSolids\<close>\<close>
  have "1 / 2 ^ 1000 \<le> P" "P \<le> 2 ^ 1000" using Plo Phi by simp_all
  then obtain p where p: "jmul (Num w) (Num s) = Num p"
    and pb: "P - P / 9007199254740992 \<le> p" "p \<le> P + P / 9007199254740992"
    unfolding P_def using jmul_pos [of w s] by blast
  have ppos: "0 < p" using pb(1) Ppos by linarith
  \<comment> \<open>\<open>dft\<close>\<close>
  have "1 / 2 ^ 1000 \<le> p / 100" "p / 100 \<le> 2 ^ 1000" using pb Plo Phi by simp_all
  then obtain d where d: "jdiv (Num p) (Num 100) = Num d"
    and db0: "p / 100 - p / 100 / 9007199254740992 \<le> d" "d \<le> p / 100 + p / 100 / 9007199254740992"
    using jdiv_pos [of p 100] by blast
  have db: "P * (999999999999999777 / 100000000000000000000) \<le> d"
    "d \<le> P * (1000000000000000223 / 100000000000000000000)"
    using db0 pb Ppos by linarith+
  have dpos: "0 < d" using db(1) Ppos by linarith
  \<comment> \<open>\<open>COVERAGE_CONSTANT * volumeSolids\<close>\<close>
  have "1 / 2 ^ 1000 \<le> 1604 * s" "1604 * s \<le> 2 ^ 1000" using s by simp_all
  then obtain n where n: "jmul (Num 1604) (Num s) = Num n"
    and nb0: "1604 * s - 1604 * s / 9007199254740992 \<le> n" "n \<le> 1604 * s + 1604 * s / 9007199254740992"
    using jmul_pos [of 1604 s] by blast
  have nb: "s * (1603999999999999820352 / 1000000000000000000) \<le> n"
    "n \<le> s * (1604000000000000179648 / 1000000000000000000)"
    using nb0 spos by linarith+
  have npos: "0 < n" using nb(1) spos by linarith
  \<comment> \<open>\<open>coverage\<close>\<close>
  define Q where "Q = n / d"
  have Qhi: "Q \<le> X * (1000000000000000336 / 1000000000000000000)"
  proof -
    have "n / d \<le> (s * (1604000000000000179648 / 1000000000000000000)) / (P * (999999999999999777 / 100000000000000000000))"
      using nb(2) db(1) npos Ppos by (intro frac_le) simp_all
    also have "\<dots> = X * ((1604000000000000179648 / 1000000000000000000) / (999999999999999777 / 100000000000000000000) / 160400)"
      using wpos spos by (simp add: P_def X_def)
    also have "\<dots> \<le> X * (1000000000000000336 / 1000000000000000000)"
      using Xpos by (intro mult_left_mono) simp_all
    finally show ?thesis by (simp add: Q_def)
  qed
  have Qlo: "X * (999999999999999664 / 1000000000000000000) \<le> Q"
  proof -
    have "X * (999999999999999664 / 1000000000000000000)
            \<le> X * ((1603999999999999820352 / 1000000000000000000) / (1000000000000000223 / 100000000000000000000) / 160400)"
      using Xpos by (intro mult_left_mono) simp_all
    also have "\<dots> = (s * (1603999999999999820352 / 1000000000000000000)) / (P * (1000000000000000223 / 100000000000000000000))"
      using wpos spos by (simp add: P_def X_def)
    also have "\<dots> \<le> n / d"
      using nb(1) db(2) dpos spos by (intro frac_le) simp_all
    finally show ?thesis by (simp add: Q_def)
  qed
  have "1 / 2 ^ 1000 \<le> Q" "Q \<le> 2 ^ 1000" using Qlo Qhi Xlo Xhi by simp_all
  then obtain c where c: "jdiv (Num n) (Num d) = Num c"
    and cb0: "Q - Q / 9007199254740992 \<le> c" "c \<le> Q + Q / 9007199254740992"
    unfolding Q_def using jdiv_pos [of n d] by blast
  have cb: "X * (999999999999999552 / 1000000000000000000) \<le> c" "c \<le> X * (1000000000000000448 / 1000000000000000000)"
    using cb0 Qlo Qhi Xpos by linarith+
  have cpos: "0 < c" using cb(1) Xpos by linarith
  \<comment> \<open>the scaling by 10 and the rounding\<close>
  have "1 / 2 ^ 1000 \<le> c * 10" "c * 10 \<le> 2 ^ 1000" using cb Xlo Xhi by simp_all
  then obtain t where t: "jmul (Num c) (Num 10) = Num t"
    and tb0: "c * 10 - c * 10 / 9007199254740992 \<le> t" "t \<le> c * 10 + c * 10 / 9007199254740992"
    using jmul_pos [of c 10] by blast
  have tb: "10 * X - 1 / 500 \<le> t" "t \<le> 10 * X + 1 / 500"
    using tb0 cb Xpos Xhi by linarith+
  have tpos: "0 \<le> t" using tb0 cpos by linarith
  define k where "k = \<lfloor>t + 1 / 2\<rfloor>"
  have kb: "of_int k - 1 / 2 \<le> t" "t < of_int k + 1 / 2" unfolding k_def by linarith+
  have r: "Math_round (Num t) = Num (of_int k)" using tpos by (simp add: Math_round.simps k_def)
  have kpos: "0 \<le> k" using tpos unfolding k_def by linarith
  have res: "calculateSpreadingRate (Num w) (Num s) = double (of_int k / 10)"
    using kpos
    by (simp add: calculateSpreadingRate_def Let_def COVERAGE_CONSTANT_def p d n c t r
          jdiv_Num double_def divide_less_0_iff)
  have "10 * X = 1604000 / w" by (simp add: X_def)
  with kb tb have "\<bar>of_int k - 1604000 / w\<bar> \<le> 502 / 1000" by linarith
  with res show ?thesis by blast
qed

text \<open>
  Claim C10 says that for a wet film thickness above 0 the result does not depend on the
  volume solids. In binary64 arithmetic it does: at a wet film thickness of 64 the exact
  quotient \<open>1604000 / 64\<close> is 25062.5, a tie; with volume solids of 65 the computed
  quotient is exactly that and is rounded up to 2506.3, with volume solids of 7 it is
  one unit in the last place below and is rounded down to 2506.2.
\<close>

theorem spreading_rate_counterexample:
  "jgt (Num 64) (Num 0) \<and> Num 7 \<noteq> Num 0 \<and> Num 65 \<noteq> Num 0
   \<and> calculateSpreadingRate (Num 64) (Num 7) = double 2506.2
   \<and> calculateSpreadingRate (Num 64) (Num 65) = double 2506.3
   \<and> calculateSpreadingRate (Num 64) (Num 7) \<noteq> calculateSpreadingRate (Num 64) (Num 65)"
proof -
  have a1: "jmul (Num 64) (Num 7) = (Num 448)"
    by (rule jmul_normal [where k = "8" and m = "7881299347898368"]) simp_all
  have a2: "jdiv (Num 448) (Num 100) = (Num (1261007895663739 / 281474976710656))"
    by (rule jdiv_normal [where k = "2" and m = "5044031582654956"]) simp_all
  have a3: "jmul (Num 1604) (Num 7) = (Num 11228)"
    by (rule jmul_normal [where k = "13" and m = "6172658278334464"]) simp_all
  have a4: "jdiv (Num 11228) (Num (1261007895663739 / 281474976710656)) = (Num (5511302034227199 / 2199023255552))"
    by (rule jdiv_normal [where k = "11" and m = "5511302034227199"]) simp_all
  have a5: "jmul (Num (5511302034227199 / 2199023255552)) (Num 10) = (Num (6889127542783999 / 274877906944))"
    by (rule jmul_normal [where k = "14" and m = "6889127542783999"]) simp_all
  have a6: "Math_round (Num (6889127542783999 / 274877906944)) = (Num 25062)"
    by (rule Math_round_eval [where n = "25062"]) simp_all
  have a7: "jdiv (Num 25062) (Num 10) = double 2506.2"
    by (simp add: jdiv_Num double_def)
  have b1: "jmul (Num 64) (Num 65) = (Num 4160)"
    by (rule jmul_normal [where k = "12" and m = "4573968371548160"]) simp_all
  have b2: "jdiv (Num 4160) (Num 100) = (Num (5854679515581645 / 140737488355328))"
    by (rule jdiv_normal [where k = "5" and m = "5854679515581645"]) simp_all
  have b3: "jmul (Num 1604) (Num 65) = (Num 104260)"
    by (rule jmul_normal [where k = "16" and m = "7164692644495360"]) simp_all
  have b4: "jdiv (Num 104260) (Num (5854679515581645 / 140737488355328)) = (Num (10025 / 4))"
    by (rule jdiv_normal [where k = "11" and m = "5511302034227200"]) simp_all
  have b5: "jmul (Num (10025 / 4)) (Num 10) = (Num (50125 / 2))"
    by (rule jmul_normal [where k = "14" and m = "6889127542784000"]) simp_all
  have b6: "Math_round (Num (50125 / 2)) = (Num 25063)"
    by (rule Math_round_eval [where n = "25063"]) simp_all
  have b7: "jdiv (Num 25063) (Num 10) = double 2506.3"
    by (simp add: jdiv_Num double_def)
  have 1: "calculateSpreadingRate (Num 64) (Num 7) = double 2506.2"
    unfolding calculateSpreadingRate_def Let_def COVERAGE_CONSTANT_def
    by (simp only: a1 a2 a3 a4 a5 a6 a7)
  have 2: "calculateSpreadingRate (Num 64) (Num 65) = double 2506.3"
    unfolding calculateSpreadingRate_def Let_def COVERAGE_CONSTANT_def
    by (simp only: b1 b2 b3 b4 b5 b6 b7)
  have d1: "double 2506.2 = Num (2755596041532211 / 1099511627776)"
    by (rule double_normal [where k = 11 and m = 5511192083064422]) simp_all
  have d2: "double 2506.3 = Num (2755705992694989 / 1099511627776)"
    by (rule double_normal [where k = 11 and m = 5511411985389978]) simp_all
  have 3: "double 2506.2 \<noteq> double 2506.3" unfolding d1 d2 by simp
  have 4: "jgt (Num 64) (Num 0)" by (simp add: jgt_def jlt_def)
  from 1 2 3 4 show ?thesis by simp
qed

text \<open>
  Claim C10, amended. For a wet film thickness \<open>w\<close> between \<open>2 powi - 20\<close> and
  \<open>2 powi 100\<close> and two volume-solids values between \<open>2 powi - 100\<close> and \<open>2 powi 100\<close>, the
  two results of \<open>calculateSpreadingRate\<close> are the doubles nearest to \<open>n1 / 10\<close> and
  \<open>n2 / 10\<close> for integers \<open>n1\<close> and \<open>n2\<close> that both lie within 0.502 of \<open>1604000 / w\<close>
  and differ by at most 1: the volume solids cancel up to the rounding of the binary64
  operations, which can move the result by one unit of the first decimal.
\<close>

theorem spreading_rate_close:
  fixes w s1 s2 :: real
  assumes "1 / 2 ^ 20 \<le> w" "w \<le> 2 ^ 100"
    and "1 / 2 ^ 100 \<le> s1" "s1 \<le> 2 ^ 100" and "1 / 2 ^ 100 \<le> s2" "s2 \<le> 2 ^ 100"
  shows "\<exists>n1 n2 :: int.
           calculateSpreadingRate (Num w) (Num s1) = double (of_int n1 / 10)
         \<and> calculateSpreadingRate (Num w) (Num s2) = double (of_int n2 / 10)
         \<and> \<bar>of_int n1 - 1604000 / w\<bar> \<le> 502 / 1000
         \<and> \<bar>of_int n2 - 1604000 / w\<bar> \<le> 502 / 1000
         \<and> \<bar>n1 - n2\<bar> \<le> 1"
proof -
  from spreading_rate_near [OF assms(1,2) assms(3,4)] obtain n1 :: int
    where 1: "calculateSpreadingRate (Num w) (Num s1) = double (of_int n1 / 10)"
      and b1: "\<bar>of_int n1 - 1604000 / w\<bar> \<le> 502 / 1000" by blast
  from spreading_rate_near [OF assms(1,2) assms(5,6)] obtain n2 :: int
    where 2: "calculateSpreadingRate (Num w) (Num s2) = double (of_int n2 / 10)"
      and b2: "\<bar>of_int n2 - 1604000 / w\<bar> \<le> 502 / 1000" by blast
  from b1 b2 have "\<bar>real_of_int n1 - real_of_int n2\<bar> < 2" by linarith
  then have "\<bar>real_of_int (n1 - n2)\<bar> < real_of_int 2" by simp
  then have "\<bar>n1 - n2\<bar> < 2" by (simp only: of_int_abs [symmetric] of_int_less_iff)
  then have "\<bar>n1 - n2\<bar> \<le> 1" by linarith
  with 1 2 b1 b2 show ?thesis by blast
qed

theorem spreading_rate_close_witness:
  "1 / 2 ^ 20 \<le> (64::real) \<and> (64::real) \<le> 2 ^ 100
   \<and> 1 / 2 ^ 100 \<le> (7::real) \<and> (7::real) \<le> 2 ^ 100
   \<and> 1 / 2 ^ 100 \<le> (65::real) \<and> (65::real) \<le> 2 ^ 100
   \<and> (\<exists>n1 n2 :: int.
           calculateSpreadingRate (Num 64) (Num 7) = double (of_int n1 / 10)
         \<and> calculateSpreadingRate (Num 64) (Num 65) = double (of_int n2 / 10)
         \<and> \<bar>of_int n1 - 1604000 / 64\<bar> \<le> (502 / 1000 :: real)
         \<and> \<bar>of_int n2 - 1604000 / 64\<bar> \<le> (502 / 1000 :: real)
         \<and> \<bar>n1 - n2\<bar> \<le> 1)"
proof -
  have h: "1 / 2 ^ 20 \<le> (64::real)" "(64::real) \<le> 2 ^ 100"
    "1 / 2 ^ 100 \<le> (7::real)" "(7::real) \<le> 2 ^ 100"
    "1 / 2 ^ 100 \<le> (65::real)" "(65::real) \<le> 2 ^ 100"
    by simp_all
  from spreading_rate_close [OF h] h show ?thesis by blast
qed

section \<open>The multi-coat system\<close>

text \<open>The system of a single topcoat, evaluated in binary64.\<close>

lemma one_topcoat_gallons:
  "\<exists>c. calculatePaintCoverage (layer_input (Num 1000) (Num 65) one_topcoat_layer) = Inr c
      \<and> CoverageResult.totalGallons c = double 5.8"
proof -
  have c1: "jmul (Num 1604) (Num 50) = (Num 80200)"
    by (rule jmul_normal [where k = "16" and m = "5511302034227200"]) simp_all
  have c2: "jdiv (Num 80200) (Num 100) = (Num 802)"
    by (rule jdiv_normal [where k = "9" and m = "7054466603810816"]) simp_all
  have c3: "jdiv (Num 802) (Num 3) = (Num (4702977735873877 / 17592186044416))"
    by (rule jdiv_normal [where k = "8" and m = "4702977735873877"]) simp_all
  have c4: "jdiv (Num 65) (Num 100) = (Num (5854679515581645 / 9007199254740992))"
    by (rule jdiv_normal [where k = "-1" and m = "5854679515581645"]) simp_all
  have c5: "jmul (Num (4702977735873877 / 17592186044416)) (Num (5854679515581645 / 9007199254740992)) = (Num (764233882079505 / 4398046511104))"
    by (rule jmul_normal [where k = "7" and m = "6113871056636040"]) simp_all
  have c6: "jdiv (Num 1000) (Num (764233882079505 / 4398046511104)) = (Num (6479377940778577 / 1125899906842624))"
    by (rule jdiv_normal [where k = "2" and m = "6479377940778577"]) simp_all
  have c7: "jmul (Num (6479377940778577 / 1125899906842624)) (Num 1) = (Num (6479377940778577 / 1125899906842624))"
    by (rule jmul_normal [where k = "2" and m = "6479377940778577"]) simp_all
  have c8: "jmul (Num (6479377940778577 / 1125899906842624)) (Num 10) = (Num (8099222425973221 / 140737488355328))"
    by (rule jmul_normal [where k = "5" and m = "8099222425973221"]) simp_all
  have c9: "Math_ceil (Num (8099222425973221 / 140737488355328)) = (Num 58)"
    by (rule Math_ceil_eval [where n = "58"]) simp_all
  have c10: "jdiv (Num 58) (Num 10) = double 5.8"
    by (simp add: jdiv_Num double_def)
  have v: "calculatePaintCoverage (layer_input (Num 1000) (Num 65) one_topcoat_layer)
             = Inr (coverage_return (coverage_locals (Num 1000) (Num 1) (Num 50) (Num 3) (Num 65) (Num 25)))"
    unfolding layer_input_def one_topcoat_layer_def
    by (simp add: calculatePaintCoverage_def Let_def jle_def jgt_def jlt_def)
  have "CoverageResult.totalGallons
          (coverage_return (coverage_locals (Num 1000) (Num 1) (Num 50) (Num 3) (Num 65) (Num 25)))
        = double 5.8"
    unfolding coverage_return_def coverage_locals_def Let_def COVERAGE_CONSTANT_def
      CoverageResult.simps CoverageLocals.simps
    by (simp only: c1 c2 c3 c4 c5 c6 c7 c8 c9 c10)
  with v show ?thesis by simp
qed

lemma one_topcoat_summary:
  "\<exists>res. calculateMultiCoatSystem one_topcoat = Inr res
     \<and> summary res =
         \<lparr>MultiCoatSummary.totalDFT = Num 3, totalCost = Num 145,
          costPerSquareFoot = double 0.14, MultiCoatSummary.totalGallons = double 5.8,
          systemDescription = [Lit ''Topcoat: '', NumText (Num 3), Lit '' mils DFT'']\<rparr>"
proof -
  from one_topcoat_gallons obtain c
    where c: "calculatePaintCoverage (layer_input (Num 1000) (Num 65) one_topcoat_layer) = Inr c"
      and g: "CoverageResult.totalGallons c = double 5.8" by blast
  have d58: "double 5.8 = Num (6530219459687219 / 1125899906842624)"
    by (rule double_normal [where k = 2 and m = 6530219459687219]) simp_all
  from g have g': "CoverageResult.totalGallons c = Num (6530219459687219 / 1125899906842624)"
    by (simp only: d58)
  have c11: "jmul (Num (6530219459687219 / 1125899906842624)) (Num 25) = (Num 145)"
    by (rule jmul_normal [where k = "7" and m = "5101733952880640"]) simp_all
  have m1: "jmul (Num 3) (Num 1) = (Num 3)"
    by (rule jmul_normal [where k = "1" and m = "6755399441055744"]) simp_all
  have m2: "jadd (Num 0) (Num 3) = (Num 3)"
    by (rule jadd_normal [where k = "1" and m = "6755399441055744"]) simp_all
  have m3: "jmul (Num 3) (Num 10) = (Num 30)"
    by (rule jmul_normal [where k = "4" and m = "8444249301319680"]) simp_all
  have m4: "Math_round (Num 30) = (Num 30)"
    by (rule Math_round_eval [where n = "30"]) simp_all
  have m5: "jdiv (Num 30) (Num 10) = (Num 3)"
    by (rule jdiv_normal [where k = "1" and m = "6755399441055744"]) simp_all
  have m6: "jadd (Num 0) (Num 145) = (Num 145)"
    by (rule jadd_normal [where k = "7" and m = "5101733952880640"]) simp_all
  have m7: "jmul (Num 145) (Num 100) = (Num 14500)"
    by (rule jmul_normal [where k = "13" and m = "7971459301376000"]) simp_all
  have m8: "Math_round (Num 14500) = (Num 14500)"
    by (rule Math_round_eval [where n = "14500"]) simp_all
  have m9: "jdiv (Num 14500) (Num 100) = (Num 145)"
    by (rule jdiv_normal [where k = "7" and m = "5101733952880640"]) simp_all
  have m10: "jdiv (Num 145) (Num 1000) = (Num (5224175567749775 / 36028797018963968))"
    by (rule jdiv_normal [where k = "-3" and m = "5224175567749775"]) simp_all
  have m11: "jmul (Num (5224175567749775 / 36028797018963968)) (Num 100) = (Num (8162774324609023 / 562949953421312))"
    by (rule jmul_normal [where k = "3" and m = "8162774324609023"]) simp_all
  have m12: "Math_round (Num (8162774324609023 / 562949953421312)) = (Num 14)"
    by (rule Math_round_eval [where n = "14"]) simp_all
  have m14: "jadd (Num 0) (Num (6530219459687219 / 1125899906842624)) = (Num (6530219459687219 / 1125899906842624))"
    by (rule jadd_normal [where k = "2" and m = "6530219459687219"]) simp_all
  have m15: "jmul (Num (6530219459687219 / 1125899906842624)) (Num 10) = (Num 58)"
    by (rule jmul_normal [where k = "5" and m = "8162774324609024"]) simp_all
  have m16: "Math_round (Num 58) = (Num 58)"
    by (rule Math_round_eval [where n = "58"]) simp_all
  have m17: "jdiv (Num 58) (Num 10) = (Num (6530219459687219 / 1125899906842624))"
    by (rule jdiv_normal [where k = "2" and m = "6530219459687219"]) simp_all
  have step: "process_layer (Num 1000) (system one_topcoat) (Num 65) topcoat st
      = Inr \<lparr>acc_layers = (acc_layers st)(topcoat \<mapsto>
                 CoverageResult.extend c (LayerResult.fields (Num 3) (Num 145))),
              acc_totalCost = jadd (acc_totalCost st) (Num 145),
              acc_totalDFT = jadd (acc_totalDFT st) (Num 3),
              acc_totalGallons = jadd (acc_totalGallons st)
                                   (Num (6530219459687219 / 1125899906842624))\<rparr>" for st
    unfolding process_layer_def
    by (simp add: one_topcoat_def c g' Let_def jgt_def jlt_def)
       (simp add: one_topcoat_layer_def c11 m1 m7 m8 m9)
  have skip: "process_layer (Num 1000) (system one_topcoat) (Num 65) lt st = Inr st"
    if "lt \<noteq> topcoat" for lt st
    using that unfolding process_layer_def by (simp add: one_topcoat_def)
  have d14: "double 0.14 = Num (1261007895663739 / 9007199254740992)"
    by (rule double_normal [where k = "- 3" and m = 5044031582654956]) simp_all
  have m13: "jdiv (Num 14) (Num 100) = Num (1261007895663739 / 9007199254740992)"
    by (rule jdiv_normal [where k = "- 3" and m = 5044031582654956]) simp_all
  have a: "MultiCoatInput.surfaceArea one_topcoat = Num 1000"
    "MultiCoatInput.transferEfficiency one_topcoat = None"
    by (simp_all add: one_topcoat_def)
  show ?thesis
    unfolding calculateMultiCoatSystem_def Let_def d14 d58 a
    by (simp add: skip step m2 m3 m4 m5 m6 m7 m8 m9 m10 m11 m12 m13 m14 m15 m16 m17
          generateSystemDescription_def describe_layer_def CoverageResult.defs LayerResult.defs)
qed

text \<open>
  Claim C6 says that \<open>costPerSquareFoot\<close> is \<open>totalCost / surfaceArea\<close>. For a single
  topcoat of 50 percent solids at 3 mils and 25 a gallon on 1000 square feet the total
  cost is 145 and the quotient is 0.145, but the field returned is 0.14: the source
  rounds the quotient to 2 decimals, and \<open>(145 / 1000) * 100\<close> is 14.499999999999998 in
  binary64, which \<open>Math.round\<close> takes down to 14.
\<close>

theorem multiCoat_cost_counterexample:
  "\<exists>res. calculateMultiCoatSystem one_topcoat = Inr res
     \<and> totalCost (summary res) = Num 145
     \<and> costPerSquareFoot (summary res) = double 0.14
     \<and> jdiv (totalCost (summary res)) (MultiCoatInput.surfaceArea one_topcoat) = double 0.145
     \<and> costPerSquareFoot (summary res)
         \<noteq> jdiv (totalCost (summary res)) (MultiCoatInput.surfaceArea one_topcoat)"
proof -
  from one_topcoat_summary obtain res
    where r: "calculateMultiCoatSystem one_topcoat = Inr res"
      and s: "summary res =
         \<lparr>MultiCoatSummary.totalDFT = Num 3, totalCost = Num 145,
          costPerSquareFoot = double 0.14, MultiCoatSummary.totalGallons = double 5.8,
          systemDescription = [Lit ''Topcoat: '', NumText (Num 3), Lit '' mils DFT'']\<rparr>"
    by blast
  have d14: "double 0.14 = Num (1261007895663739 / 9007199254740992)"
    by (rule double_normal [where k = "- 3" and m = 5044031582654956]) simp_all
  have d145: "double 0.145 = Num (5224175567749775 / 36028797018963968)"
    by (rule double_normal [where k = "- 3" and m = 5224175567749775]) simp_all
  have q: "jdiv (Num 145) (Num 1000) = double 0.145"
    by (simp add: jdiv_Num double_def)
  have a: "MultiCoatInput.surfaceArea one_topcoat = Num 1000" by (simp add: one_topcoat_def)
  have 1: "totalCost (summary res) = Num 145" "costPerSquareFoot (summary res) = double 0.14"
    by (simp_all only: s MultiCoatSummary.simps)
  have 2: "jdiv (totalCost (summary res)) (MultiCoatInput.surfaceArea one_topcoat) = double 0.145"
    by (simp only: 1 a q)
  have 3: "double 0.14 \<noteq> double 0.145" unfolding d14 d145 by simp
  have 4: "costPerSquareFoot (summary res)
             \<noteq> jdiv (totalCost (summary res)) (MultiCoatInput.surfaceArea one_topcoat)"
    unfolding 2 1(2) by (rule 3)
  from r 1 2 4 show ?thesis by blast
qed

text \<open>
  Claim C6, amended. \<open>calculateMultiCoatSystem\<close> computes what \<open>spec_multiCoat\<close>
  describes: the layers present with a coat count above 0 are taken in the order primer,
  intermediate, topcoat; each goes through \<open>calculatePaintCoverage\<close> with its own
  parameters and the transfer efficiency of the system; the summary holds the sums of
  \<open>dft * coats\<close>, of \<open>totalGallons * pricePerGallon\<close> and of \<open>totalGallons\<close> over those
  layers, rounded to 1, 2 and 1 decimals, and \<open>costPerSquareFoot\<close> is the unrounded sum
  of the costs divided by the surface area and then rounded to 2 decimals, every
  rounding being \<open>Math.round(x * 10 ^ k) / 10 ^ k\<close> in binary64; the description joins
  the name and total DFT of each included layer with a separator. A layer is in the
  output exactly when it is present with a coat count above 0, and its entry is its
  coverage result with \<open>totalDFT = dft * coats\<close> and its cost rounded to 2 decimals.
\<close>

theorem multiCoat_system:
  "calculateMultiCoatSystem input = spec_multiCoat input
   \<and> (\<forall>res. calculateMultiCoatSystem input = Inr res \<longrightarrow>
        (\<forall>lt. layers res lt \<noteq> None \<longleftrightarrow>
               (\<exists>l. system input lt = Some l \<and> jgt (CoatingLayer.coats l) (Num 0)))
      \<and> (\<forall>lt l. system input lt = Some l \<and> jgt (CoatingLayer.coats l) (Num 0) \<longrightarrow>
            (\<exists>c. calculatePaintCoverage
                   \<lparr>CoverageInput.surfaceArea = MultiCoatInput.surfaceArea input,
                    CoverageInput.coats = Some (CoatingLayer.coats l),
                    CoverageInput.volumeSolids = CoatingLayer.volumeSolids l,
                    targetDFT = dft l,
                    CoverageInput.transferEfficiency =
                      Some (dflt (MultiCoatInput.transferEfficiency input) (Num 65)),
                    CoverageInput.pricePerGallon =
                      Some (or_else (CoatingLayer.pricePerGallon l) (Num 0))\<rparr> = Inr c
               \<and> layers res lt =
                   Some (CoverageResult.extend c
                           (LayerResult.fields (jmul (dft l) (CoatingLayer.coats l))
                              (js_round 2
                                 (jmul (CoverageResult.totalGallons c)
                                       (or_else (CoatingLayer.pricePerGallon l) (Num 0)))))))))"
proof (intro conjI allI impI)
  show "calculateMultiCoatSystem input = spec_multiCoat input" by (rule multiCoat_refines)
next
  fix res lt
  assume r: "calculateMultiCoatSystem input = Inr res"
  from multiCoat_layer_entries [OF r, of lt]
  show "layers res lt \<noteq> None \<longleftrightarrow>
          (\<exists>l. system input lt = Some l \<and> jgt (CoatingLayer.coats l) (Num 0))"
    by (auto split: option.splits if_splits)
next
  fix res lt l
  assume r: "calculateMultiCoatSystem input = Inr res"
    and l: "system input lt = Some l \<and> jgt (CoatingLayer.coats l) (Num 0)"
  from multiCoat_layer_entries [OF r, of lt] l obtain lr
    where s: "spec_layer (MultiCoatInput.surfaceArea input)
                (dflt (MultiCoatInput.transferEfficiency input) (Num 65)) l = Inr lr"
      and e: "layers res lt = Some lr"
    by auto
  from spec_layer_coverage [OF s] e
  show "\<exists>c. calculatePaintCoverage
                   \<lparr>CoverageInput.surfaceArea = MultiCoatInput.surfaceArea input,
                    CoverageInput.coats = Some (CoatingLayer.coats l),
                    CoverageInput.volumeSolids = CoatingLayer.volumeSolids l,
                    targetDFT = dft l,
                    CoverageInput.transferEfficiency =
                      Some (dflt (MultiCoatInput.transferEfficiency input) (Num 65)),
                    CoverageInput.pricePerGallon =
                      Some (or_else (CoatingLayer.pricePerGallon l) (Num 0))\<rparr> = Inr c
               \<and> layers res lt =
                   Some (CoverageResult.extend c
                           (LayerResult.fields (jmul (dft l) (CoatingLayer.coats l))
                              (js_round 2
                                 (jmul (CoverageResult.totalGallons c)
                                       (or_else (CoatingLayer.pricePerGallon l) (Num 0))))))"
    by blast
qed

theorem multiCoat_system_witness:
  "system one_topcoat topcoat = Some one_topcoat_layer
   \<and> jgt (CoatingLayer.coats one_topcoat_layer) (Num 0)
   \<and> system one_topcoat primer = None
   \<and> (\<exists>res c. calculateMultiCoatSystem one_topcoat = Inr res
          \<and> spec_multiCoat one_topcoat = Inr res
          \<and> layers res topcoat \<noteq> None \<and> layers res primer = None
          \<and> layers res intermediate = None
          \<and> summary res =
              \<lparr>MultiCoatSummary.totalDFT = Num 3, totalCost = Num 145,
               costPerSquareFoot = double 0.14, MultiCoatSummary.totalGallons = double 5.8,
               systemDescription = [Lit ''Topcoat: '', NumText (Num 3), Lit '' mils DFT'']\<rparr>
          \<and> calculatePaintCoverage
                \<lparr>CoverageInput.surfaceArea = Num 1000, CoverageInput.coats = Some (Num 1),
                 CoverageInput.volumeSolids = Num 50, targetDFT = Num 3,
                 CoverageInput.transferEfficiency = Some (Num 65),
                 CoverageInput.pricePerGallon = Some (Num 25)\<rparr> = Inr c
          \<and> layers res topcoat =
              Some (CoverageResult.extend c
                      (LayerResult.fields (jmul (Num 3) (Num 1))
                         (js_round 2 (jmul (CoverageResult.totalGallons c) (Num 25))))))"
proof -
  note th = multiCoat_system [of one_topcoat]
  have p: "system one_topcoat topcoat = Some one_topcoat_layer"
    "jgt (CoatingLayer.coats one_topcoat_layer) (Num 0)"
    "system one_topcoat primer = None" "system one_topcoat intermediate = None"
    by (simp_all add: one_topcoat_def one_topcoat_layer_def jgt_def jlt_def)
  from one_topcoat_summary obtain res
    where run: "calculateMultiCoatSystem one_topcoat = Inr res"
      and s: "summary res =
              \<lparr>MultiCoatSummary.totalDFT = Num 3, totalCost = Num 145,
               costPerSquareFoot = double 0.14, MultiCoatSummary.totalGallons = double 5.8,
               systemDescription = [Lit ''Topcoat: '', NumText (Num 3), Lit '' mils DFT'']\<rparr>"
    by blast
  from th run have sp: "spec_multiCoat one_topcoat = Inr res" by simp
  note inc = th [THEN conjunct2, rule_format, OF run, THEN conjunct1, rule_format]
  note ent = th [THEN conjunct2, rule_format, OF run, THEN conjunct2, rule_format,
                 of topcoat one_topcoat_layer]
  from inc [of topcoat] p have 1: "layers res topcoat \<noteq> None" by blast
  from inc [of primer] p have 2: "layers res primer = None" by simp
  from inc [of intermediate] p have 3: "layers res intermediate = None" by simp
  from ent p obtain c where
    c: "calculatePaintCoverage
          \<lparr>CoverageInput.surfaceArea = MultiCoatInput.surfaceArea one_topcoat,
           CoverageInput.coats = Some (CoatingLayer.coats one_topcoat_layer),
           CoverageInput.volumeSolids = CoatingLayer.volumeSolids one_topcoat_layer,
           targetDFT = dft one_topcoat_layer,
           CoverageInput.transferEfficiency =
             Some (dflt (MultiCoatInput.transferEfficiency one_topcoat) (Num 65)),
           CoverageInput.pricePerGallon =
             Some (or_else (CoatingLayer.pricePerGallon one_topcoat_layer) (Num 0))\<rparr> = Inr c"
    and e: "layers res topcoat =
             Some (CoverageResult.extend c
                     (LayerResult.fields
                        (jmul (dft one_topcoat_layer) (CoatingLayer.coats one_topcoat_layer))
                        (js_round 2
                           (jmul (CoverageResult.totalGallons c)
                                 (or_else (CoatingLayer.pricePerGallon one_topcoat_layer)
                                    (Num 0))))))"
    by blast
  from c have c': "calculatePaintCoverage
                \<lparr>CoverageInput.surfaceArea = Num 1000, CoverageInput.coats = Some (Num 1),
                 CoverageInput.volumeSolids = Num 50, targetDFT = Num 3,
                 CoverageInput.transferEfficiency = Some (Num 65),
                 CoverageInput.pricePerGallon = Some (Num 25)\<rparr> = Inr c"
    by (simp add: one_topcoat_def one_topcoat_layer_def)
  from e have e': "layers res topcoat =
              Some (CoverageResult.extend c
                      (LayerResult.fields (jmul (Num 3) (Num 1))
                         (js_round 2 (jmul (CoverageResult.totalGallons c) (Num 25)))))"
    by (simp add: one_topcoat_layer_def)
  from p run sp 1 2 3 s c' e' show ?thesis by blast
qed

section \<open>Failure of a layer\<close>

text \<open>
  Claim C8. If an included layer violates a precondition of \<open>calculatePaintCoverage\<close>
  (an area of 0 or less, volume solids of 0 or less or above 100, a DFT of 0 or less),
  \<open>calculateMultiCoatSystem\<close> raises \<open>InvalidInput\<close> and returns no result, whatever
  the layers before it are.
\<close>

theorem multiCoat_error_propagates:
  assumes "system input lt = Some l" and "jgt (CoatingLayer.coats l) (Num 0)"
    and "jle (MultiCoatInput.surfaceArea input) (Num 0)
           \<or> jle (CoatingLayer.volumeSolids l) (Num 0)
           \<or> jgt (CoatingLayer.volumeSolids l) (Num 100) \<or> jle (dft l) (Num 0)"
  shows "(\<exists>m. calculateMultiCoatSystem input = Inl (InvalidInput m))
       \<and> (\<forall>res. calculateMultiCoatSystem input \<noteq> Inr res)"
proof -
  have no: "calculateMultiCoatSystem input \<noteq> Inr res" for res
  proof
    assume r: "calculateMultiCoatSystem input = Inr res"
    from multiCoat_layer_entries [OF r, of lt] assms(1,2) obtain lr
      where "spec_layer (MultiCoatInput.surfaceArea input)
                (dflt (MultiCoatInput.transferEfficiency input) (Num 65)) l = Inr lr"
      by auto
    with spec_layer_invalid [OF assms(3),
           of "dflt (MultiCoatInput.transferEfficiency input) (Num 65)"]
    show False by auto
  qed
  then obtain e where "calculateMultiCoatSystem input = Inl e"
    by (cases "calculateMultiCoatSystem input") auto
  moreover obtain m where "e = InvalidInput m" by (cases e)
  ultimately show ?thesis using no by blast
qed

theorem multiCoat_error_propagates_witness:
  "system bad_topcoat_system topcoat
     = Some (test_topcoat\<lparr>CoatingLayer.volumeSolids := Num 150\<rparr>)
   \<and> jgt (CoatingLayer.coats (test_topcoat\<lparr>CoatingLayer.volumeSolids := Num 150\<rparr>)) (Num 0)
   \<and> jgt (CoatingLayer.volumeSolids (test_topcoat\<lparr>CoatingLayer.volumeSolids := Num 150\<rparr>))
         (Num 100)
   \<and> (\<exists>m. calculateMultiCoatSystem bad_topcoat_system = Inl (InvalidInput m))"
proof -
  have p: "system bad_topcoat_system topcoat
             = Some (test_topcoat\<lparr>CoatingLayer.volumeSolids := Num 150\<rparr>)"
    "jgt (CoatingLayer.coats (test_topcoat\<lparr>CoatingLayer.volumeSolids := Num 150\<rparr>)) (Num 0)"
    "jgt (CoatingLayer.volumeSolids (test_topcoat\<lparr>CoatingLayer.volumeSolids := Num 150\<rparr>))
         (Num 100)"
    by (simp_all add: bad_topcoat_system_def test_topcoat_def jgt_def jlt_def)
  from p(3) have v: "jle (MultiCoatInput.surfaceArea bad_topcoat_system) (Num 0)
           \<or> jle (CoatingLayer.volumeSolids (test_topcoat\<lparr>CoatingLayer.volumeSolids := Num 150\<rparr>))
                (Num 0)
           \<or> jgt (CoatingLayer.volumeSolids (test_topcoat\<lparr>CoatingLayer.volumeSolids := Num 150\<rparr>))
                (Num 100)
           \<or> jle (dft (test_topcoat\<lparr>CoatingLayer.volumeSolids := Num 150\<rparr>)) (Num 0)"
    by blast
  from multiCoat_error_propagates [OF p(1) p(2) v] p show ?thesis by blast
qed

end
